theory Spec2Isabelle
  imports Complex_Main "HOL-Library.Multiset" "HOL-Library.AList"
begin

section \<open>Python exceptions\<close>

text \<open>
  Every \<^verbatim>\<open>raise\<close> of the modelled code is a value of \<open>error\<close>; a function that can
  raise returns \<open>error + 'a\<close> with \<open>Inl\<close> for the exception. \<open>ValueError\<close> carries a
  short tag naming the check that raised it.
\<close>

datatype error =
    ValueError string
  | IndexError
  | TypeError
  | AssertionError
  | RuntimeError
  | NameError string
  | NotImplementedError
  | DisabledStateError
  | NoValueSetError

text \<open>
  Reading a name that is bound neither in the function nor in the module nor among the
  builtins raises \<^verbatim>\<open>NameError\<close>. The module \<^verbatim>\<open>classifier.py\<close> binds exactly
  \<^verbatim>\<open>operator\<close>, \<^verbatim>\<open>N\<close>, \<^verbatim>\<open>deepcopy\<close>, \<^verbatim>\<open>Set\<close>, \<^verbatim>\<open>MaskMapper\<close>,
  \<^verbatim>\<open>NoneSplitter\<close>, \<^verbatim>\<open>State\<close>, \<^verbatim>\<open>debug\<close> and its own classes.
\<close>

definition unbound_name :: "string \<Rightarrow> error + 'a" where
  "unbound_name n = Inl (NameError n)"

section \<open>State slots\<close>

text \<open>
  Modelled from the spec: the class \<^verbatim>\<open>State\<close> of \<^verbatim>\<open>mvpa.misc.state\<close> is not among the
  sources. A slot has an enabled flag and the last value set, if any. Reading a disabled
  slot is an error, reading a slot never written is an error, and a write to a disabled
  slot is dropped silently.
\<close>

record 'v state_slot =
  enabled :: bool
  held :: "'v option"

definition isStateEnabled :: "'v state_slot \<Rightarrow> bool" where
  "isStateEnabled s = enabled s"

definition getState :: "'v state_slot \<Rightarrow> error + 'v" where
  "getState s =
     (if \<not> enabled s then Inl DisabledStateError
      else case held s of None \<Rightarrow> Inl NoValueSetError | Some v \<Rightarrow> Inr v)"

definition setState :: "'v state_slot \<Rightarrow> 'v \<Rightarrow> 'v state_slot" where
  "setState s v = (if enabled s then s\<lparr>held := Some v\<rparr> else s)"

section \<open>MaximalVote\<close>

text \<open>
  A prediction for one sample is a single label or a sequence of labels
  (\<^verbatim>\<open>operator.isSequenceType\<close> tells them apart); a single label is wrapped into a
  one-element tuple before it is counted.
\<close>

datatype 'l prediction = Label 'l | Labels "'l list"

fun as_sequence :: "'l prediction \<Rightarrow> 'l list" where
  "as_sequence (Label l) = [l]"
| "as_sequence (Labels ls) = ls"

text \<open>The combiner reads one state of a classifier: \<^verbatim>\<open>predictions\<close>.\<close>

record 'l classifier =
  predictions_state :: "'l prediction list state_slot"

text \<open>
  A dictionary label \<open>\<rightharpoonup>\<close> count is an association list with distinct keys.
  \<^verbatim>\<open>if not d.has_key(label): d[label] = 0\<close> followed by \<^verbatim>\<open>d[label] += 1\<close>:
\<close>

type_synonym 'l label_counts = "('l \<times> int) list"

definition count_label :: "'l label_counts \<Rightarrow> 'l \<Rightarrow> 'l label_counts" where
  "count_label d label =
     (case map_of d label of
        None \<Rightarrow> AList.update label (0 + 1) (AList.update label 0 d)
      | Some v \<Rightarrow> AList.update label (v + 1) d)"

text \<open>\<^verbatim>\<open>for label in prediction\<close>, at sample \<open>i\<close>; \<^verbatim>\<open>all_label_counts[i]\<close> raises when
  \<open>i\<close> is out of range.\<close>

fun tally_labels ::
  "'l label_counts list \<Rightarrow> nat \<Rightarrow> 'l list \<Rightarrow> error + 'l label_counts list" where
  "tally_labels alc i [] = Inr alc"
| "tally_labels alc i (label # rest) =
     (if i < length alc then tally_labels (alc[i := count_label (alc ! i) label]) i rest
      else Inl IndexError)"

text \<open>\<^verbatim>\<open>for i in xrange(len(predictions))\<close>, from sample \<open>i\<close> on.\<close>

fun tally_samples ::
  "'l label_counts list \<Rightarrow> nat \<Rightarrow> 'l prediction list \<Rightarrow> error + 'l label_counts list" where
  "tally_samples alc i [] = Inr alc"
| "tally_samples alc i (p # ps) =
     (case tally_labels alc i (as_sequence p) of
        Inl e \<Rightarrow> Inl e
      | Inr alc' \<Rightarrow> tally_samples alc' (Suc i) ps)"

text \<open>\<^verbatim>\<open>for clf in clfs\<close>; \<open>all_label_counts\<close> is \<^verbatim>\<open>None\<close> until the first classifier
  has given the number of samples.\<close>

fun tally_clfs ::
  "'l label_counts list option \<Rightarrow> 'l classifier list \<Rightarrow> error + 'l label_counts list option" where
  "tally_clfs alc [] = Inr alc"
| "tally_clfs alc (clf # clfs) =
     (if \<not> isStateEnabled (predictions_state clf) then Inl (ValueError ''predictions'')
      else case getState (predictions_state clf) of
        Inl e \<Rightarrow> Inl e
      | Inr predictions \<Rightarrow>
          (let alc0 = (case alc of None \<Rightarrow> replicate (length predictions) [] | Some a \<Rightarrow> a)
           in case tally_samples alc0 0 predictions of
                Inl e \<Rightarrow> Inl e
              | Inr a \<Rightarrow> tally_clfs (Some a) clfs))"

text \<open>The explicit search for the maximum: one step of
  \<^verbatim>\<open>for k,v in label_counts.iteritems()\<close>.\<close>

definition max_step :: "'l list \<times> int \<Rightarrow> 'l \<times> int \<Rightarrow> 'l list \<times> int" where
  "max_step acc kv =
     (case acc of (maxk, maxv) \<Rightarrow> case kv of (k, v) \<Rightarrow>
        if v > maxv then ([k], v)
        else if v = maxv then (maxk @ [k], maxv)
        else (maxk, maxv))"

text \<open>
  The vote for one sample. The order in which Python 2 iterates over a dictionary is not
  fixed by the language, so \<open>iteritems\<close> is a parameter: it lists the entries of the
  dictionary in the order of iteration. On a tie the code calls \<^verbatim>\<open>warning\<close>, a name the
  module does not bind.
\<close>

definition vote ::
  "('l label_counts \<Rightarrow> ('l \<times> int) list) \<Rightarrow> 'l label_counts \<Rightarrow> error + 'l" where
  "vote iteritems label_counts =
     (case foldl max_step ([], - 1) (iteritems label_counts) of (maxk, maxv) \<Rightarrow>
        if \<not> length maxk \<ge> 1 then Inl AssertionError
        else case (if length maxk > 1
                   then (case unbound_name ''warning'' of
                           Inl e \<Rightarrow> Inl e
                         | Inr (warning :: string \<Rightarrow> unit) \<Rightarrow> Inr (warning ''same maximal vote''))
                   else Inr ()) of
               Inl e \<Rightarrow> Inl e
             | Inr _ \<Rightarrow> (case maxk of [] \<Rightarrow> Inl IndexError | k # _ \<Rightarrow> Inr k))"

text \<open>\<^verbatim>\<open>for i in xrange(len(all_label_counts))\<close>, appending to \<open>predictions\<close>.\<close>

fun select_votes ::
  "('l label_counts \<Rightarrow> ('l \<times> int) list) \<Rightarrow> 'l label_counts list \<Rightarrow> error + 'l list" where
  "select_votes iteritems [] = Inr []"
| "select_votes iteritems (label_counts # rest) =
     (case vote iteritems label_counts of
        Inl e \<Rightarrow> Inl e
      | Inr k \<Rightarrow> (case select_votes iteritems rest of
                    Inl e \<Rightarrow> Inl e
                  | Inr ks \<Rightarrow> Inr (k # ks)))"

text \<open>The combiner's own states, as \<^verbatim>\<open>MaximalVote.__init__\<close> registers them.\<close>

record 'l MaximalVote =
  mv_predictions :: "'l list state_slot"
  mv_all_label_counts :: "'l label_counts list state_slot"

definition MaximalVote_init :: "'l MaximalVote" where
  "MaximalVote_init =
     \<lparr>mv_predictions = \<lparr>enabled = True, held = None\<rparr>,
      mv_all_label_counts = \<lparr>enabled = False, held = None\<rparr>\<rparr>"

text \<open>\<^verbatim>\<open>MaximalVote.__call__\<close>: the result and the combiner after the call.\<close>

definition MaximalVote_call ::
  "('l label_counts \<Rightarrow> ('l \<times> int) list) \<Rightarrow> 'l MaximalVote \<Rightarrow> 'l classifier list
   \<Rightarrow> error + ('l list \<times> 'l MaximalVote)" where
  "MaximalVote_call iteritems self clfs =
     (if length clfs = 0 then Inr ([], self)
      else case tally_clfs None clfs of
        Inl e \<Rightarrow> Inl e
      | Inr None \<Rightarrow> Inl TypeError
      | Inr (Some all_label_counts) \<Rightarrow>
          (case select_votes iteritems all_label_counts of
             Inl e \<Rightarrow> Inl e
           | Inr predictions \<Rightarrow>
               Inr (predictions,
                    self\<lparr>mv_all_label_counts :=
                           setState (mv_all_label_counts self) all_label_counts,
                         mv_predictions :=
                           setState (mv_predictions self) predictions\<rparr>)))"

text \<open>What the tallies are meant to hold: the number of times label \<open>l\<close> is predicted
  for sample \<open>i\<close>, over all prediction lists that reach sample \<open>i\<close>.\<close>

definition votes :: "'l prediction list list \<Rightarrow> nat \<Rightarrow> 'l \<Rightarrow> int" where
  "votes pss i l =
     (\<Sum>ps\<leftarrow>pss. if i < length ps then int (count_list (as_sequence (ps ! i)) l) else 0)"

text \<open>The invariant of one tally: the dictionary \<open>d\<close> has distinct keys and holds
  exactly the non-zero counts of \<open>f\<close>.\<close>

definition tallied :: "'l label_counts \<Rightarrow> ('l \<Rightarrow> int) \<Rightarrow> bool" where
  "tallied d f \<longleftrightarrow>
     distinct (map fst d) \<and> (\<forall>l. map_of d l = (if f l = 0 then None else Some (f l)))"

text \<open>A classifier that has predicted \<open>ps\<close>, with the state enabled as
  \<^verbatim>\<open>Classifier.__init__\<close> registers it.\<close>

definition clf_predicting :: "'l prediction list \<Rightarrow> 'l classifier" where
  "clf_predicting ps = \<lparr>predictions_state = \<lparr>enabled = True, held = Some ps\<rparr>\<rparr>"

section \<open>Dataset\<close>

text \<open>
  A numpy array is its shape and its elements in row-major order. Elements are of an
  abstract type: \<^verbatim>\<open>dtype\<close> conversion is not modelled.
\<close>

record 'a ndarray =
  shape :: "nat list"
  elems :: "'a list"

text \<open>\<^verbatim>\<open>N.array(x, ndmin=2)\<close> prepends axes of length 1 until there are two.\<close>

definition ndmin2 :: "'a ndarray \<Rightarrow> 'a ndarray" where
  "ndmin2 a = a\<lparr>shape := replicate (2 - length (shape a)) 1 @ shape a\<rparr>"

text \<open>\<^verbatim>\<open>len(a)\<close> is the length of the first axis. It is applied to arrays of at least two
  dimensions only (for an array without axes Python raises \<^verbatim>\<open>TypeError\<close>).\<close>

definition len_array :: "'a ndarray \<Rightarrow> nat" where
  "len_array a = (case shape a of [] \<Rightarrow> 0 | n # _ \<Rightarrow> n)"

text \<open>An argument that is a single value or a sequence of values.\<close>

datatype 'v arg = Scalar 'v | Sequence "'v list"

text \<open>The private attributes of \<^verbatim>\<open>Dataset\<close>. Chunks are integers: the default is
  \<^verbatim>\<open>N.arange\<close>.\<close>

record ('a, 'l) Dataset =
  samples :: "'a ndarray"
  labels :: "'l list"
  chunks :: "int list"
  origlabels :: "'l list option"
  uniqueLabels :: "'l list option"
  uniqueChunks :: "int list option"

definition setLabels :: "('a, 'l) Dataset \<Rightarrow> 'l list \<Rightarrow> ('a, 'l) Dataset" where
  "setLabels self ls = self\<lparr>labels := ls, uniqueLabels := None\<rparr>"

definition setChunks :: "('a, 'l) Dataset \<Rightarrow> int list \<Rightarrow> ('a, 'l) Dataset" where
  "setChunks self cs = self\<lparr>chunks := cs, uniqueChunks := None\<rparr>"

text \<open>
  \<^verbatim>\<open>Dataset.__init__\<close>. The argument \<open>samples0\<close> is the array that \<^verbatim>\<open>N.array\<close> makes of
  \<^verbatim>\<open>samples\<close>; both branches of the first test leave an array of two or more dimensions
  as it is and pad a smaller one. \<^verbatim>\<open>chunks == None\<close> is the test for a missing argument.
  Labels and chunks are given as one value, on which \<^verbatim>\<open>len\<close> raises \<^verbatim>\<open>TypeError\<close>, or
  as a flat sequence of values.
\<close>

definition Dataset_init ::
  "'a ndarray \<Rightarrow> 'l arg \<Rightarrow> int arg option \<Rightarrow> error + ('a, 'l) Dataset" where
  "Dataset_init samples0 labels0 chunks0 =
     (let samples1 = ndmin2 samples0 in
      if length (shape samples1) > 2 then Inl (ValueError ''samples'')
      else
        case (case labels0 of
                Sequence ls \<Rightarrow>
                  if length ls \<noteq> len_array samples1 then Inl (ValueError ''labels'')
                  else Inr ls
              | Scalar l \<Rightarrow> Inr (replicate (len_array samples1) l)) of
          Inl e \<Rightarrow> Inl e
        | Inr labels1 \<Rightarrow>
            (case (case chunks0 of
                     None \<Rightarrow> Inr (map int [0..<len_array samples1])
                   | Some (Sequence cs) \<Rightarrow>
                       if length cs \<noteq> len_array samples1 then Inl (ValueError ''chunks'')
                       else Inr cs
                   | Some (Scalar c) \<Rightarrow> Inr (replicate (len_array samples1) c)) of
               Inl e \<Rightarrow> Inl e
             | Inr chunks1 \<Rightarrow>
                 Inr (setChunks
                        (setLabels
                           \<lparr>samples = samples1, labels = [], chunks = [],
                            origlabels = None, uniqueLabels = None, uniqueChunks = None\<rparr>
                           labels1)
                        chunks1)))"

text \<open>\<^verbatim>\<open>samples.shape[0]\<close> and \<^verbatim>\<open>samples.shape[1]\<close>.\<close>

definition getNSamples :: "('a, 'l) Dataset \<Rightarrow> error + nat" where
  "getNSamples self = (case shape (samples self) of n # _ \<Rightarrow> Inr n | _ \<Rightarrow> Inl IndexError)"

definition getNFeatures :: "('a, 'l) Dataset \<Rightarrow> error + nat" where
  "getNFeatures self =
     (case shape (samples self) of _ # f # _ \<Rightarrow> Inr f | _ \<Rightarrow> Inl IndexError)"

subsection \<open>Indexing\<close>

text \<open>An index into an axis of length \<open>n\<close>; a negative index counts from the end.\<close>

definition norm_index :: "nat \<Rightarrow> int \<Rightarrow> error + nat" where
  "norm_index n i =
     (if 0 \<le> i \<and> i < int n then Inr (nat i)
      else if - int n \<le> i \<and> i < 0 then Inr (nat (int n + i))
      else Inl IndexError)"

fun norm_indices :: "nat \<Rightarrow> int list \<Rightarrow> error + nat list" where
  "norm_indices n [] = Inr []"
| "norm_indices n (i # is) =
     (case norm_index n i of
        Inl e \<Rightarrow> Inl e
      | Inr j \<Rightarrow> (case norm_indices n is of
                    Inl e \<Rightarrow> Inl e
                  | Inr js \<Rightarrow> Inr (j # js)))"

text \<open>\<^verbatim>\<open>xs[ids, ]\<close> on a one-dimensional array.\<close>

definition index_list :: "'x list \<Rightarrow> int list \<Rightarrow> error + 'x list" where
  "index_list xs ids =
     (case norm_indices (length xs) ids of
        Inl e \<Rightarrow> Inl e
      | Inr js \<Rightarrow> Inr (map (\<lambda>j. xs ! j) js))"

text \<open>The first \<open>k\<close> consecutive blocks of \<open>sz\<close> elements.\<close>

definition blocks :: "nat \<Rightarrow> nat \<Rightarrow> 'x list \<Rightarrow> 'x list list" where
  "blocks k sz xs = map (\<lambda>r. take sz (drop (r * sz) xs)) [0..<k]"

text \<open>\<^verbatim>\<open>a[ids, ]\<close>: the listed entries of the first axis.\<close>

definition index_axis0 :: "'a ndarray \<Rightarrow> int list \<Rightarrow> error + 'a ndarray" where
  "index_axis0 a ids =
     (case shape a of
        [] \<Rightarrow> Inl IndexError
      | n # rest \<Rightarrow>
          (case norm_indices n ids of
             Inl e \<Rightarrow> Inl e
           | Inr js \<Rightarrow>
               Inr \<lparr>shape = length js # rest,
                    elems = concat (map (\<lambda>j. blocks n (prod_list rest) (elems a) ! j) js)\<rparr>))"

text \<open>\<^verbatim>\<open>a[:, ids]\<close>: the listed entries of the second axis, for a sequence of indices; a
  single index removes the axis.\<close>

definition index_axis1 :: "'a ndarray \<Rightarrow> int arg \<Rightarrow> error + 'a ndarray" where
  "index_axis1 a ids =
     (case shape a of
        n # f # rest \<Rightarrow>
          (case norm_indices f (case ids of Scalar i \<Rightarrow> [i] | Sequence is \<Rightarrow> is) of
             Inl e \<Rightarrow> Inl e
           | Inr js \<Rightarrow>
               Inr \<lparr>shape = (case ids of Scalar i \<Rightarrow> n # rest
                                     | Sequence is \<Rightarrow> n # length js # rest),
                    elems = concat (map (\<lambda>row. concat (map (\<lambda>j. blocks f (prod_list rest) row ! j) js))
                                       (blocks n (f * prod_list rest) (elems a)))\<rparr>)
      | _ \<Rightarrow> Inl IndexError)"

text \<open>\<^verbatim>\<open>N.concatenate((a, b), axis=0)\<close>: the other axes have to agree.\<close>

definition concatenate0 :: "'a ndarray \<Rightarrow> 'a ndarray \<Rightarrow> error + 'a ndarray" where
  "concatenate0 a b =
     (case (shape a, shape b) of
        (n # ra, m # rb) \<Rightarrow>
          if ra = rb then Inr \<lparr>shape = (n + m) # ra, elems = elems a @ elems b\<rparr>
          else Inl (ValueError ''concatenate'')
      | _ \<Rightarrow> Inl (ValueError ''concatenate''))"

subsection \<open>Selection and concatenation\<close>

definition selectFeatures :: "('a, 'l) Dataset \<Rightarrow> int arg \<Rightarrow> error + ('a, 'l) Dataset" where
  "selectFeatures self ids =
     (case index_axis1 (samples self) ids of
        Inl e \<Rightarrow> Inl e
      | Inr s \<Rightarrow> Dataset_init s (Sequence (labels self)) (Some (Sequence (chunks self))))"

text \<open>\<^verbatim>\<open>selectSamples\<close>: a mask that is not a sequence becomes a list of one index.\<close>

definition selectSamples :: "('a, 'l) Dataset \<Rightarrow> int arg \<Rightarrow> error + ('a, 'l) Dataset" where
  "selectSamples self mask0 =
     (let msk = (case mask0 of Scalar i \<Rightarrow> [i] | Sequence is \<Rightarrow> is) in
      case index_axis0 (samples self) msk of
        Inl e \<Rightarrow> Inl e
      | Inr s \<Rightarrow>
          (case index_list (labels self) msk of
             Inl e \<Rightarrow> Inl e
           | Inr ls \<Rightarrow>
               (case index_list (chunks self) msk of
                  Inl e \<Rightarrow> Inl e
                | Inr cs \<Rightarrow> Dataset_init s (Sequence ls) (Some (Sequence cs)))))"

text \<open>\<^verbatim>\<open>__iadd__\<close>: the in-place merge, returning the updated \<open>self\<close>.\<close>

definition Dataset_iadd ::
  "('a, 'l) Dataset \<Rightarrow> ('a, 'l) Dataset \<Rightarrow> error + ('a, 'l) Dataset" where
  "Dataset_iadd self other =
     (case getNFeatures self of
        Inl e \<Rightarrow> Inl e
      | Inr f1 \<Rightarrow>
          (case getNFeatures other of
             Inl e \<Rightarrow> Inl e
           | Inr f2 \<Rightarrow>
               if \<not> f1 = f2 then Inl (ValueError ''features'')
               else case concatenate0 (samples self) (samples other) of
                 Inl e \<Rightarrow> Inl e
               | Inr s \<Rightarrow>
                   Inr (setChunks
                          (setLabels (self\<lparr>samples := s\<rparr>) (labels self @ labels other))
                          (chunks self @ chunks other))))"

text \<open>\<^verbatim>\<open>__add__\<close>: a new dataset from the attributes of \<open>self\<close>, merged in place with
  \<open>other\<close>.\<close>

definition Dataset_add ::
  "('a, 'l) Dataset \<Rightarrow> ('a, 'l) Dataset \<Rightarrow> error + ('a, 'l) Dataset" where
  "Dataset_add self other =
     (case Dataset_init (samples self) (Sequence (labels self)) (Some (Sequence (chunks self))) of
        Inl e \<Rightarrow> Inl e
      | Inr out \<Rightarrow> Dataset_iadd out other)"

subsection \<open>Unique labels and chunks\<close>

text \<open>\<^verbatim>\<open>N.unique\<close>: the distinct values in ascending order. Both getters fill their cache
  on the first call.\<close>

definition unique :: "'x::linorder list \<Rightarrow> 'x list" where
  "unique xs = sort (remdups xs)"

definition getUniqueLabels ::
  "('a, 'l::linorder) Dataset \<Rightarrow> 'l list \<times> ('a, 'l) Dataset" where
  "getUniqueLabels self =
     (case uniqueLabels self of
        None \<Rightarrow> (let u = unique (labels self) in (u, self\<lparr>uniqueLabels := Some u\<rparr>))
      | Some u \<Rightarrow> (u, self))"

definition getUniqueChunks ::
  "('a, 'l) Dataset \<Rightarrow> int list \<times> ('a, 'l) Dataset" where
  "getUniqueChunks self =
     (case uniqueChunks self of
        None \<Rightarrow> (let u = unique (chunks self) in (u, self\<lparr>uniqueChunks := Some u\<rparr>))
      | Some u \<Rightarrow> (u, self))"

subsection \<open>Permutation of the labels\<close>

text \<open>\<^verbatim>\<open>xs[mask]\<close> and \<^verbatim>\<open>xs[mask] = vs\<close> for a boolean mask: the mask has the length of
  \<open>xs\<close>, and \<open>vs\<close> has one value for every \<^verbatim>\<open>True\<close>.\<close>

definition bool_index :: "'x list \<Rightarrow> bool list \<Rightarrow> error + 'x list" where
  "bool_index xs msk =
     (if length msk \<noteq> length xs then Inl IndexError
      else Inr (map fst (filter snd (zip xs msk))))"

fun put_mask :: "'x list \<Rightarrow> bool list \<Rightarrow> 'x list \<Rightarrow> 'x list" where
  "put_mask (x # xs) (True # ms) (v # vs) = v # put_mask xs ms vs"
| "put_mask (x # xs) (False # ms) vs = x # put_mask xs ms vs"
| "put_mask xs ms vs = xs"

definition bool_assign :: "'x list \<Rightarrow> bool list \<Rightarrow> 'x list \<Rightarrow> error + 'x list" where
  "bool_assign xs msk vs =
     (if length msk \<noteq> length xs then Inl IndexError
      else if length vs \<noteq> length (filter id msk) then Inl (ValueError ''shape mismatch'')
      else Inr (put_mask xs msk vs))"

text \<open>
  The loop \<^verbatim>\<open>for o in self.uniquechunks\<close> of \<^verbatim>\<open>permutedRegressors\<close>, on the labels
  \<open>ls\<close> that it updates in place. \<^verbatim>\<open>N.random.permutation\<close> is the parameter
  \<open>permutation\<close>: from the state of the generator and a sequence it gives a sequence and
  the next state.
\<close>

fun permute_chunks ::
  "('g \<Rightarrow> 'l list \<Rightarrow> 'l list \<times> 'g) \<Rightarrow> 'g \<Rightarrow> int list \<Rightarrow> 'l list \<Rightarrow> int list
   \<Rightarrow> error + ('l list \<times> 'g)" where
  "permute_chunks permutation g cs ls [] = Inr (ls, g)"
| "permute_chunks permutation g cs ls (c # rest) =
     (let msk = map (\<lambda>x. x = c) cs in
      case bool_index ls msk of
        Inl e \<Rightarrow> Inl e
      | Inr sel \<Rightarrow>
          (case permutation g sel of (vs, g') \<Rightarrow>
             (case bool_assign ls msk vs of
                Inl e \<Rightarrow> Inl e
              | Inr ls' \<Rightarrow> permute_chunks permutation g' cs ls' rest)))"

definition permutedRegressors ::
  "('g \<Rightarrow> 'l list \<Rightarrow> 'l list \<times> 'g) \<Rightarrow> 'g \<Rightarrow> ('a, 'l) Dataset \<Rightarrow> bool \<Rightarrow> bool
   \<Rightarrow> error + (('a, 'l) Dataset \<times> 'g)" where
  "permutedRegressors permutation g self status perchunk =
     (if \<not> status then
        (case origlabels self of
           None \<Rightarrow> Inl RuntimeError
         | Some ol \<Rightarrow> Inr ((setLabels self ol)\<lparr>origlabels := None\<rparr>, g))
      else
        (let self1 = self\<lparr>origlabels := Some (labels self)\<rparr> in
         if perchunk then
           (case getUniqueChunks self1 of (uc, self2) \<Rightarrow>
              (case permute_chunks permutation g (chunks self2) (labels self2) uc of
                 Inl e \<Rightarrow> Inl e
               | Inr (ls, g') \<Rightarrow> Inr (setLabels self2 ls, g')))
         else
           (case permutation g (labels self1) of (ls, g') \<Rightarrow> Inr (setLabels self1 ls, g'))))"

subsection \<open>Random samples\<close>

text \<open>
  \<^verbatim>\<open>random.sample(population, k)\<close> raises unless \<open>0 \<le> k \<le> len(population)\<close>; what it
  draws is the parameter \<open>sample\<close>.
\<close>

definition random_sample ::
  "('g \<Rightarrow> nat list \<Rightarrow> nat \<Rightarrow> nat list \<times> 'g) \<Rightarrow> 'g \<Rightarrow> nat list \<Rightarrow> int
   \<Rightarrow> error + (nat list \<times> 'g)" where
  "random_sample sample g population k =
     (if \<not> (0 \<le> k \<and> k \<le> int (length population)) then Inl (ValueError ''sample'')
      else Inr (sample g population (nat k)))"

text \<open>\<^verbatim>\<open>for i, r in enumerate(self.uniquelabels)\<close>, from position \<open>i\<close> on; \<open>acc\<close> is the
  list \<^verbatim>\<open>sample\<close> collected so far.\<close>

fun draw_samples ::
  "('g \<Rightarrow> nat list \<Rightarrow> nat \<Rightarrow> nat list \<times> 'g) \<Rightarrow> 'g \<Rightarrow> 'l list \<Rightarrow> int list \<Rightarrow> nat \<Rightarrow> 'l list
   \<Rightarrow> nat list \<Rightarrow> error + (nat list \<times> 'g)" where
  "draw_samples sample g ls nperlabel i [] acc = Inr (acc, g)"
| "draw_samples sample g ls nperlabel i (r # rest) acc =
     (let ids = filter (\<lambda>j. ls ! j = r) [0..<length ls] in
      if \<not> i < length nperlabel then Inl IndexError
      else case random_sample sample g ids (nperlabel ! i) of
        Inl e \<Rightarrow> Inl e
      | Inr (s, g') \<Rightarrow> draw_samples sample g' ls nperlabel (Suc i) rest (acc @ s))"

text \<open>\<^verbatim>\<open>getRandomSamples\<close>: the new dataset, \<open>self\<close> with its cache of unique labels filled,
  and the next state of the generator.\<close>

definition getRandomSamples ::
  "('g \<Rightarrow> nat list \<Rightarrow> nat \<Rightarrow> nat list \<times> 'g) \<Rightarrow> 'g \<Rightarrow> ('a, 'l::linorder) Dataset \<Rightarrow> int arg
   \<Rightarrow> error + (('a, 'l) Dataset \<times> ('a, 'l) Dataset \<times> 'g)" where
  "getRandomSamples sample g self nperlabel0 =
     (case getUniqueLabels self of (ul, self1) \<Rightarrow>
        (let nperlabel = (case nperlabel0 of Scalar n \<Rightarrow> map (\<lambda>i. n) ul | Sequence ns \<Rightarrow> ns) in
         case draw_samples sample g (labels self1) nperlabel 0 ul [] of
           Inl e \<Rightarrow> Inl e
         | Inr (s, g') \<Rightarrow>
             (case selectSamples self1 (Sequence (map int s)) of
                Inl e \<Rightarrow> Inl e
              | Inr d \<Rightarrow> Inr (d, self1, g'))))"

text \<open>The invariant of a dataset: two-dimensional samples, one label and one chunk per
  sample.\<close>

definition invariant :: "('a, 'l) Dataset \<Rightarrow> bool" where
  "invariant d \<longleftrightarrow>
     length (shape (samples d)) = 2 \<and>
     length (labels d) = len_array (samples d) \<and>
     length (chunks d) = len_array (samples d)"

text \<open>What \<^verbatim>\<open>random.sample\<close> promises of its result for \<open>k\<close> within the population:
  \<open>k\<close> members, none of them twice.\<close>

definition draws_without_replacement ::
  "('g \<Rightarrow> nat list \<Rightarrow> nat \<Rightarrow> nat list \<times> 'g) \<Rightarrow> bool" where
  "draws_without_replacement sample \<longleftrightarrow>
     (\<forall>g population k. distinct population \<and> k \<le> length population \<longrightarrow>
        length (fst (sample g population k)) = k \<and>
        distinct (fst (sample g population k)) \<and>
        set (fst (sample g population k)) \<subseteq> set population)"

subsection \<open>Example values\<close>

text \<open>A dataset of two samples and two features, a dataset with all caches empty, and a
  sampler that draws the first \<open>k\<close> members of the population.\<close>

definition example_samples :: "int ndarray" where
  "example_samples = \<lparr>shape = [2, 2], elems = [1, 2, 3, 4]\<rparr>"

definition example_dataset :: "(int, int) Dataset" where
  "example_dataset =
     \<lparr>samples = example_samples, labels = [0, 1], chunks = [0, 1],
      origlabels = None, uniqueLabels = None, uniqueChunks = None\<rparr>"

definition dataset_of :: "'a ndarray \<Rightarrow> 'l list \<Rightarrow> int list \<Rightarrow> ('a, 'l) Dataset" where
  "dataset_of s ls cs =
     \<lparr>samples = s, labels = ls, chunks = cs,
      origlabels = None, uniqueLabels = None, uniqueChunks = None\<rparr>"

definition take_first :: "unit \<Rightarrow> nat list \<Rightarrow> nat \<Rightarrow> nat list \<times> unit" where
  "take_first g population k = (take k population, g)"

text \<open>A permutation that reverses its argument and leaves the generator as it is.\<close>

definition reversing :: "unit \<Rightarrow> 'l list \<Rightarrow> 'l list \<times> unit" where
  "reversing g xs = (rev xs, g)"

text \<open>A dataset of four samples of one feature, two samples of each label, and a sampler
  that draws the last \<open>k\<close> members of the population.\<close>

definition example_dataset4 :: "(int, int) Dataset" where
  "example_dataset4 =
     dataset_of \<lparr>shape = [4, 1], elems = [10, 20, 30, 40]\<rparr> [0, 1, 0, 1] [0, 0, 1, 1]"

definition take_last :: "unit \<Rightarrow> nat list \<Rightarrow> nat \<Rightarrow> nat list \<times> unit" where
  "take_last g population k = (drop (length population - k) population, g)"

section \<open>Classifiers that wrap classifiers\<close>

text \<open>
  Modelled from the spec: the registry of states of the class \<^verbatim>\<open>State\<close> and its
  \<^verbatim>\<open>_copy_states_\<close>, which are not among the sources. A registry maps the name of a
  registered state to its slot. Copying takes, for every state registered on both sides,
  the enabled flag and the value of the source; with \<^verbatim>\<open>deep=False\<close> the value is shared,
  which for values is the same as copied.
\<close>

type_synonym 'v states = "string \<Rightarrow> 'v state_slot option"

definition copy_states :: "'v states \<Rightarrow> 'v states \<Rightarrow> 'v states" where
  "copy_states own source =
     (\<lambda>name. case own name of
                None \<Rightarrow> None
              | Some s \<Rightarrow> (case source name of None \<Rightarrow> Some s | Some t \<Rightarrow> Some t))"

text \<open>The states that \<^verbatim>\<open>Classifier.__init__\<close> registers.\<close>

definition Classifier_states :: "'v states" where
  "Classifier_states =
     [''trained_values'' \<mapsto> \<lparr>enabled = False, held = None\<rparr>,
      ''trained_predictions'' \<mapsto> \<lparr>enabled = False, held = None\<rparr>,
      ''values'' \<mapsto> \<lparr>enabled = False, held = None\<rparr>,
      ''predictions'' \<mapsto> \<lparr>enabled = True, held = None\<rparr>]"

text \<open>
  The wrapped classifier is any classifier: its \<^verbatim>\<open>train\<close>, its \<^verbatim>\<open>predict\<close> and its
  registry of states are parameters. Both methods return the classifier as the call
  leaves it.
\<close>

record ('c, 'd, 'x, 'p, 'v) wrapped =
  train_of :: "'c \<Rightarrow> 'd \<Rightarrow> error + 'c"
  predict_of :: "'c \<Rightarrow> 'x \<Rightarrow> error + ('p \<times> 'c)"
  states_of :: "'c \<Rightarrow> 'v states"

record ('c, 'v) ProxyClassifier =
  proxy_clf :: 'c
  proxy_states :: "'v states"

definition ProxyClassifier_init :: "'c \<Rightarrow> ('c, 'v) ProxyClassifier" where
  "ProxyClassifier_init clf = \<lparr>proxy_clf = clf, proxy_states = Classifier_states\<rparr>"

text \<open>
  \<^verbatim>\<open>ProxyClassifier.train(self, data)\<close> passes \<^verbatim>\<open>wdata\<close> to the wrapped classifier. The
  parameter is called \<^verbatim>\<open>data\<close>; \<^verbatim>\<open>wdata\<close> is bound nowhere.
\<close>

definition ProxyClassifier_train ::
  "('c, 'd, 'x, 'p, 'v) wrapped \<Rightarrow> ('c, 'v) ProxyClassifier \<Rightarrow> 'd
   \<Rightarrow> error + ('c, 'v) ProxyClassifier" where
  "ProxyClassifier_train ops self data =
     (case unbound_name ''wdata'' of
        Inl e \<Rightarrow> Inl e
      | Inr wdata \<Rightarrow>
          (case train_of ops (proxy_clf self) wdata of
             Inl e \<Rightarrow> Inl e
           | Inr clf \<Rightarrow>
               Inr (self\<lparr>proxy_clf := clf,
                         proxy_states := copy_states (proxy_states self) (states_of ops clf)\<rparr>)))"

definition ProxyClassifier_predict ::
  "('c, 'd, 'x, 'p, 'v) wrapped \<Rightarrow> ('c, 'v) ProxyClassifier \<Rightarrow> 'x
   \<Rightarrow> error + ('p \<times> ('c, 'v) ProxyClassifier)" where
  "ProxyClassifier_predict ops self data =
     (case predict_of ops (proxy_clf self) data of
        Inl e \<Rightarrow> Inl e
      | Inr (result, clf) \<Rightarrow>
          Inr (result,
               self\<lparr>proxy_clf := clf,
                    proxy_states := copy_states (proxy_states self) (states_of ops clf)\<rparr>))"

subsection \<open>BinaryClassifier\<close>

text \<open>What \<^verbatim>\<open>predict\<close> is to return for one polarity: the whole list of labels when
  there is more than one, else the element at index 0.\<close>

definition predict_label :: "'l list \<Rightarrow> error + 'l prediction" where
  "predict_label ls =
     (if length ls > 1 then Inr (Labels ls)
      else case ls of [] \<Rightarrow> Inl IndexError | l # _ \<Rightarrow> Inr (Label l))"

record ('c, 'l, 'v) BinaryClassifier = "('c, 'v) ProxyClassifier" +
  poslabels :: "'l list"
  neglabels :: "'l list"
  predictpos :: "'l prediction"
  predictneg :: "'l prediction"

text \<open>
  Two things in \<^verbatim>\<open>BinaryClassifier.__init__\<close> are decided by the interpreter and are
  parameters: the order in which \<^verbatim>\<open>list\<close> enumerates a \<^verbatim>\<open>Set\<close>, which follows the
  hashes of the elements, and the value of \<^verbatim>\<open>format % overlap\<close> for a format string
  without conversion specification and a \<^verbatim>\<open>Set\<close>: an interpreter that takes the
  \<^verbatim>\<open>Set\<close> for a single argument raises \<^verbatim>\<open>TypeError\<close> (not all arguments converted),
  one that takes it for a mapping returns the format string.
\<close>

record 'l interpreter =
  list_of_Set :: "'l set \<Rightarrow> 'l list"
  format_Set :: "string \<Rightarrow> 'l set \<Rightarrow> error + string"

text \<open>
  \<^verbatim>\<open>BinaryClassifier.__init__\<close>. A \<^verbatim>\<open>Set\<close> is a set; \<^verbatim>\<open>len\<close> is its cardinality. The
  argument of \<^verbatim>\<open>ValueError\<close> is evaluated before the exception is raised: a string plus
  the formatted string.
\<close>

definition BinaryClassifier_init ::
  "'l interpreter \<Rightarrow> 'c \<Rightarrow> 'l list \<Rightarrow> 'l list \<Rightarrow> error + ('c, 'l, 'v) BinaryClassifier" where
  "BinaryClassifier_init py clf poslabels0 neglabels0 =
     (let self = ProxyClassifier_init clf;
          sposlabels = set poslabels0;
          sneglabels = set neglabels0;
          overlap = sposlabels \<inter> sneglabels
      in if card overlap > 0 then
           (case format_Set py ''BinaryClassifier must not overlap. Got overlap '' overlap of
              Inl e \<Rightarrow> Inl e
            | Inr message \<Rightarrow>
                Inl (ValueError (''Sets of positive and negative labels for '' @ message)))
         else
           (let poslabels1 = list_of_Set py sposlabels;
                neglabels1 = list_of_Set py sneglabels
            in case predict_label poslabels1 of
                 Inl e \<Rightarrow> Inl e
               | Inr pp \<Rightarrow>
                   (case predict_label neglabels1 of
                      Inl e \<Rightarrow> Inl e
                    | Inr pn \<Rightarrow>
                        Inr (ProxyClassifier.extend self
                               (BinaryClassifier.fields poslabels1 neglabels1 pp pn)))))"

text \<open>An interpreter for integer labels: small integers hash to themselves, and a
  \<^verbatim>\<open>Set\<close> is a single argument to the format.\<close>

definition example_interpreter :: "int interpreter" where
  "example_interpreter =
     \<lparr>list_of_Set = sorted_list_of_set, format_Set = (\<lambda>fmt s. Inl TypeError)\<rparr>"

subsection \<open>MulticlassClassifier\<close>

text \<open>\<^verbatim>\<open>deepcopy\<close> of a value is the value.\<close>

definition deepcopy :: "'c \<Rightarrow> 'c" where
  "deepcopy clf = clf"

text \<open>The prototype classifier, the classifiers of the boosted classifier \<^verbatim>\<open>bclf\<close>, and
  the type of decomposition.\<close>

record ('c, 'l, 'v) MulticlassClassifier =
  mc_clf :: 'c
  mc_bclf_clfs :: "('c, 'l, 'v) BinaryClassifier list"
  mc_bclf_type :: string

definition MulticlassClassifier_init ::
  "'c \<Rightarrow> ('c, 'l, 'v) BinaryClassifier list \<Rightarrow> string
   \<Rightarrow> error + ('c, 'l, 'v) MulticlassClassifier" where
  "MulticlassClassifier_init clf bclf_clfs bclf_type =
     (if bclf_type = ''1-vs-1'' then
        Inr \<lparr>mc_clf = clf, mc_bclf_clfs = bclf_clfs, mc_bclf_type = bclf_type\<rparr>
      else if bclf_type = ''1-vs-all'' then Inl NotImplementedError
      else Inl (ValueError ''bclf_type''))"

text \<open>
  The inner loop \<^verbatim>\<open>for j in xrange(i+1, len(ulabels))\<close>. After
  \<^verbatim>\<open>clf = deepcopy(self.__clf)\<close> the argument \<^verbatim>\<open>copy.deepcopy(clf)\<close> is evaluated; the
  module imports \<^verbatim>\<open>deepcopy\<close> from \<^verbatim>\<open>copy\<close>, not \<^verbatim>\<open>copy\<close> itself.
\<close>

fun pairs_with ::
  "'l interpreter \<Rightarrow> 'c \<Rightarrow> 'l list \<Rightarrow> nat \<Rightarrow> nat list \<Rightarrow> ('c, 'l, 'v) BinaryClassifier list
   \<Rightarrow> error + ('c, 'l, 'v) BinaryClassifier list" where
  "pairs_with py proto ulabels i [] biclfs = Inr biclfs"
| "pairs_with py proto ulabels i (j # js) biclfs =
     (let clf = deepcopy proto in
      case unbound_name ''copy'' of
        Inl e \<Rightarrow> Inl e
      | Inr (copy_deepcopy :: 'c \<Rightarrow> 'c) \<Rightarrow>
          (case BinaryClassifier_init py (copy_deepcopy clf) [ulabels ! i] [ulabels ! j] of
             Inl e \<Rightarrow> Inl e
           | Inr b \<Rightarrow> pairs_with py proto ulabels i js (biclfs @ [b])))"

text \<open>The outer loop \<^verbatim>\<open>for i in xrange(len(ulabels))\<close>.\<close>

fun all_pairs ::
  "'l interpreter \<Rightarrow> 'c \<Rightarrow> 'l list \<Rightarrow> nat list \<Rightarrow> ('c, 'l, 'v) BinaryClassifier list
   \<Rightarrow> error + ('c, 'l, 'v) BinaryClassifier list" where
  "all_pairs py proto ulabels [] biclfs = Inr biclfs"
| "all_pairs py proto ulabels (i # is) biclfs =
     (case pairs_with py proto ulabels i [Suc i..<length ulabels] biclfs of
        Inl e \<Rightarrow> Inl e
      | Inr biclfs' \<Rightarrow> all_pairs py proto ulabels is biclfs')"

text \<open>\<^verbatim>\<open>BoostedClassifier.train\<close>: every classifier is trained on the same data. The
  \<^verbatim>\<open>train\<close> of a classifier of the list is a parameter.\<close>

fun BoostedClassifier_train ::
  "('b \<Rightarrow> 'd \<Rightarrow> error + 'b) \<Rightarrow> 'b list \<Rightarrow> 'd \<Rightarrow> error + 'b list" where
  "BoostedClassifier_train train [] data = Inr []"
| "BoostedClassifier_train train (clf # clfs) data =
     (case train clf data of
        Inl e \<Rightarrow> Inl e
      | Inr clf' \<Rightarrow>
          (case BoostedClassifier_train train clfs data of
             Inl e \<Rightarrow> Inl e
           | Inr clfs' \<Rightarrow> Inr (clf' # clfs')))"

text \<open>\<^verbatim>\<open>MulticlassClassifier.train\<close>: the classifier after training, and the dataset
  with its cache of unique labels filled. The interpreter is passed on to the constructor
  of \<^verbatim>\<open>BinaryClassifier\<close>.\<close>

definition MulticlassClassifier_train ::
  "'l interpreter
   \<Rightarrow> (('c, 'l, 'v) BinaryClassifier \<Rightarrow> ('a, 'l::linorder) Dataset
      \<Rightarrow> error + ('c, 'l, 'v) BinaryClassifier)
   \<Rightarrow> ('c, 'l, 'v) MulticlassClassifier \<Rightarrow> ('a, 'l) Dataset
   \<Rightarrow> error + (('c, 'l, 'v) MulticlassClassifier \<times> ('a, 'l) Dataset)" where
  "MulticlassClassifier_train py train self data0 =
     (case getUniqueLabels data0 of (ulabels, data) \<Rightarrow>
        (case (if mc_bclf_type self = ''1-vs-1'' then
                 (case all_pairs py (mc_clf self) ulabels [0..<length ulabels] [] of
                    Inl e \<Rightarrow> Inl e
                  | Inr biclfs \<Rightarrow> Inr (self\<lparr>mc_bclf_clfs := biclfs\<rparr>))
               else if mc_bclf_type self = ''1-vs-all'' then Inl NotImplementedError
               else Inr self) of
           Inl e \<Rightarrow> Inl e
         | Inr self1 \<Rightarrow>
             (case BoostedClassifier_train train (mc_bclf_clfs self1) data of
                Inl e \<Rightarrow> Inl e
              | Inr clfs \<Rightarrow> Inr (self1\<lparr>mc_bclf_clfs := clfs\<rparr>, data))))"

section \<open>OneWayAnova\<close>

subsection \<open>IEEE 754 binary64 arithmetic\<close>

text \<open>
  The values of a numpy array of dtype \<^verbatim>\<open>float64\<close>. \<open>Finite s m e\<close> is the number
  \<open>m * 2 ^ e\<close>, negative if the sign bit \<open>s\<close> is set, with a mantissa \<open>m\<close> of at most 53
  binary digits (\<open>binary64\<close> below); \<open>Zero s\<close> and \<open>Inf s\<close> are the signed zeros and
  infinities. Every operation computes the exact result and rounds it to the nearest
  binary64, a tie to the even mantissa. numpy raises nothing on arrays: a division by
  zero gives an infinity or not-a-number.
\<close>

datatype float = Finite bool int int | Zero bool | Inf bool | NaN

definition isnan :: "float \<Rightarrow> bool" where
  "isnan x = (x = NaN)"

fun isinf :: "float \<Rightarrow> bool" where
  "isinf (Inf s) = True"
| "isinf _ = False"

fun is_zero :: "float \<Rightarrow> bool" where
  "is_zero (Zero s) = True"
| "is_zero _ = False"

fun signbit :: "float \<Rightarrow> bool" where
  "signbit (Finite s m e) = s"
| "signbit (Zero s) = s"
| "signbit (Inf s) = s"
| "signbit NaN = False"

fun mantissa :: "float \<Rightarrow> int" where
  "mantissa (Finite s m e) = m"
| "mantissa _ = 0"

fun exponent :: "float \<Rightarrow> int" where
  "exponent (Finite s m e) = e"
| "exponent _ = 0"

definition signed_mantissa :: "float \<Rightarrow> int" where
  "signed_mantissa x = (if signbit x then - mantissa x else mantissa x)"

text \<open>The values that are binary64: a normal number has a mantissa of exactly 53
  digits, a subnormal one the least exponent.\<close>

definition binary64 :: "float \<Rightarrow> bool" where
  "binary64 x =
     (case x of
        Finite s m e \<Rightarrow>
          0 < m \<and> m < 2 ^ 53 \<and> - 1074 \<le> e \<and> e \<le> 971 \<and> (2 ^ 52 \<le> m \<or> e = - 1074)
      | _ \<Rightarrow> True)"

text \<open>The number of binary digits of an integer, \<^verbatim>\<open>int.bit_length\<close>.\<close>

function bit_length :: "int \<Rightarrow> int" where
  "bit_length n = (if n \<le> 0 then 0 else 1 + bit_length (n div 2))"
  by pat_completeness auto
termination
  by (relation "measure nat") auto

declare bit_length.simps [simp del]

text \<open>\<open>2 ^ j \<le> p / d\<close>, for \<open>d > 0\<close>; and \<open>p / d\<close> rounded to the nearest integer, a tie
  to the even one.\<close>

definition ge_pow2 :: "int \<Rightarrow> int \<Rightarrow> int \<Rightarrow> bool" where
  "ge_pow2 p d j = (if 0 \<le> j then d * 2 ^ nat j \<le> p else d \<le> p * 2 ^ nat (- j))"

definition round_half_even :: "int \<Rightarrow> int \<Rightarrow> int" where
  "round_half_even p d =
     (let f = p div d; r = p mod d
      in if 2 * r < d then f
         else if d < 2 * r then f + 1
         else if even f then f else f + 1)"

text \<open>
  The binary64 nearest to the number \<open>p / d * 2 ^ x\<close>, for \<open>p > 0\<close> and \<open>d > 0\<close>, with
  sign bit \<open>s\<close>. With \<open>2 ^ e \<le> p / d * 2 ^ x < 2 ^ (e + 1)\<close>, and \<open>e\<close> not below the least
  exponent \<open>-1022\<close> of a normal number, the number is rounded to \<open>n\<close> times \<open>2 ^ (e - 52)\<close>.
  The largest exponent is 1023: beyond it, or with the mantissa rounded up to \<open>2 ^ 53\<close>
  there, the result is an infinity.
\<close>

definition round64 :: "bool \<Rightarrow> int \<Rightarrow> int \<Rightarrow> int \<Rightarrow> float" where
  "round64 s p d x =
     (let k = bit_length p - bit_length d;
          e = max ((if ge_pow2 p d k then k else k - 1) + x) (- 1022);
          t = e - 52 - x;
          n = round_half_even (if 0 \<le> t then p else p * 2 ^ nat (- t))
                              (if 0 \<le> t then d * 2 ^ nat t else d)
      in if 1023 < e \<or> (e = 1023 \<and> n = 2 ^ 53) then Inf s
         else if n = 0 then Zero s
         else if n = 2 ^ 53 then Finite s (2 ^ 52) (e - 51)
         else Finite s n (e - 52))"

text \<open>A float literal, and \<^verbatim>\<open>float(n)\<close> of an integer.\<close>

definition float_of_rat :: "rat \<Rightarrow> float" where
  "float_of_rat q =
     (let (p, d) = quotient_of q
      in if p = 0 then Zero False else round64 (p < 0) \<bar>p\<bar> d 0)"

definition float_of_int :: "int \<Rightarrow> float" where
  "float_of_int n = (if n = 0 then Zero False else round64 (n < 0) \<bar>n\<bar> 1 0)"

text \<open>Negation, addition, subtraction, multiplication and division.\<close>

fun fneg :: "float \<Rightarrow> float" where
  "fneg (Finite s m e) = Finite (\<not> s) m e"
| "fneg (Zero s) = Zero (\<not> s)"
| "fneg (Inf s) = Inf (\<not> s)"
| "fneg NaN = NaN"

definition fadd :: "float \<Rightarrow> float \<Rightarrow> float" where
  "fadd x y =
     (if isnan x \<or> isnan y then NaN
      else if isinf x \<and> isinf y then (if x = y then x else NaN)
      else if isinf x then x
      else if isinf y then y
      else if is_zero x \<and> is_zero y then Zero (signbit x \<and> signbit y)
      else if is_zero x then y
      else if is_zero y then x
      else (let e = min (exponent x) (exponent y);
                n = signed_mantissa x * 2 ^ nat (exponent x - e)
                  + signed_mantissa y * 2 ^ nat (exponent y - e)
            in if n = 0 then Zero False else round64 (n < 0) \<bar>n\<bar> 1 e))"

definition fsub :: "float \<Rightarrow> float \<Rightarrow> float" where
  "fsub x y = fadd x (fneg y)"

definition fmul :: "float \<Rightarrow> float \<Rightarrow> float" where
  "fmul x y =
     (if isnan x \<or> isnan y then NaN
      else if isinf x \<or> isinf y
        then (if is_zero x \<or> is_zero y then NaN else Inf (signbit x \<noteq> signbit y))
      else if is_zero x \<or> is_zero y then Zero (signbit x \<noteq> signbit y)
      else round64 (signbit x \<noteq> signbit y) (mantissa x * mantissa y) 1
             (exponent x + exponent y))"

definition fdiv :: "float \<Rightarrow> float \<Rightarrow> float" where
  "fdiv x y =
     (if isnan x \<or> isnan y then NaN
      else if isinf x then (if isinf y then NaN else Inf (signbit x \<noteq> signbit y))
      else if isinf y then Zero (signbit x \<noteq> signbit y)
      else if is_zero y then (if is_zero x then NaN else Inf (signbit x \<noteq> signbit y))
      else if is_zero x then Zero (signbit x \<noteq> signbit y)
      else round64 (signbit x \<noteq> signbit y) (mantissa x) (mantissa y)
             (exponent x - exponent y))"

subsection \<open>The F-scores\<close>

text \<open>
  The dataset as \<^verbatim>\<open>_call\<close> reads it: the samples, an array of dtype \<^verbatim>\<open>float64\<close> with one
  row of \<open>a_nfeatures\<close> values per sample, and the values of the sample attribute that
  \<^verbatim>\<open>targets_attr\<close> names, one per sample.
\<close>

record 't anova_dataset =
  a_samples :: "float list list"
  a_nfeatures :: nat
  a_targets :: "'t list"

definition anova_wf :: "'t anova_dataset \<Rightarrow> bool" where
  "anova_wf ds =
     (list_all (\<lambda>row. length row = a_nfeatures ds \<and> list_all binary64 row) (a_samples ds)
      \<and> length (a_targets ds) = length (a_samples ds))"

text \<open>\<^verbatim>\<open>np.sum(a, axis=0)\<close> of rows of \<open>nf\<close> columns: the rows are added in order, to the
  first one; no row gives zeros.\<close>

definition sum_axis0 :: "nat \<Rightarrow> float list list \<Rightarrow> float list" where
  "sum_axis0 nf rows =
     (case rows of [] \<Rightarrow> replicate nf (Zero False)
      | row # rest \<Rightarrow> foldl (\<lambda>acc r. map2 fadd acc r) row rest)"

definition anova_bign :: "'t anova_dataset \<Rightarrow> float" where
  "anova_bign ds = float_of_int (int (length (a_samples ds)))"

text \<open>Total squares of sums: \<^verbatim>\<open>sostot *= sostot; sostot /= bign\<close>.\<close>

definition anova_sostot :: "'t anova_dataset \<Rightarrow> float list" where
  "anova_sostot ds =
     map (\<lambda>s. fdiv (fmul s s) (anova_bign ds)) (sum_axis0 (a_nfeatures ds) (a_samples ds))"

text \<open>Total sum of squares.\<close>

definition anova_sstot :: "'t anova_dataset \<Rightarrow> float list" where
  "anova_sstot ds =
     map2 fsub
       (sum_axis0 (a_nfeatures ds) (map (map (\<lambda>x. fmul x x)) (a_samples ds)))
       (anova_sostot ds)"

text \<open>\<^verbatim>\<open>alldata[labels == l]\<close>, and one step of \<^verbatim>\<open>for l in ul\<close>.\<close>

definition samples_of_label :: "'t anova_dataset \<Rightarrow> 't \<Rightarrow> float list list" where
  "samples_of_label ds l = map fst (filter (\<lambda>(row, t). t = l) (zip (a_samples ds) (a_targets ds)))"

definition ssbn_step :: "'t anova_dataset \<Rightarrow> float list \<Rightarrow> 't \<Rightarrow> float list" where
  "ssbn_step ds ssbn l =
     (let d = samples_of_label ds l;
          sos = sum_axis0 (a_nfeatures ds) d;
          sos2 = map (\<lambda>s. fmul s s) sos
      in map2 fadd ssbn (map (\<lambda>s. fdiv s (float_of_int (int (length d)))) sos2))"

text \<open>Between-group sum of squares, over the unique targets, from \<^verbatim>\<open>ssbn = 0\<close>; and
  within.\<close>

definition anova_ssbn :: "('t::linorder) anova_dataset \<Rightarrow> float list" where
  "anova_ssbn ds =
     map2 fsub
       (foldl (ssbn_step ds) (replicate (a_nfeatures ds) (Zero False)) (unique (a_targets ds)))
       (anova_sostot ds)"

definition anova_sswn :: "('t::linorder) anova_dataset \<Rightarrow> float list" where
  "anova_sswn ds = map2 fsub (anova_sstot ds) (anova_ssbn ds)"

text \<open>Degrees of freedom and mean sums of squares.\<close>

definition anova_dfbn :: "('t::linorder) anova_dataset \<Rightarrow> int" where
  "anova_dfbn ds = int (length (unique (a_targets ds))) - 1"

definition anova_dfwn :: "('t::linorder) anova_dataset \<Rightarrow> float" where
  "anova_dfwn ds =
     fsub (anova_bign ds) (float_of_int (int (length (unique (a_targets ds)))))"

definition anova_msb :: "('t::linorder) anova_dataset \<Rightarrow> float list" where
  "anova_msb ds = map (\<lambda>x. fdiv x (float_of_int (anova_dfbn ds))) (anova_ssbn ds)"

definition anova_msw :: "('t::linorder) anova_dataset \<Rightarrow> float list" where
  "anova_msw ds = map (\<lambda>x. fdiv x (anova_dfwn ds)) (anova_sswn ds)"

text \<open>\<^verbatim>\<open>f = msb / msw\<close>, before the replacement.\<close>

definition anova_f :: "('t::linorder) anova_dataset \<Rightarrow> float list" where
  "anova_f ds = map2 fdiv (anova_msb ds) (anova_msw ds)"

text \<open>\<^verbatim>\<open>OneWayAnova._call\<close>: \<^verbatim>\<open>f[np.isnan(f)] = 0\<close>, and the row of the returned dataset.
  The optional p-values are not modelled.\<close>

definition OneWayAnova_call :: "('t::linorder) anova_dataset \<Rightarrow> float list" where
  "OneWayAnova_call ds = map (\<lambda>x. if isnan x then Zero False else x) (anova_f ds)"

text \<open>One feature with the given values, read as float literals, and the targets;
  and two features, four samples in two groups.\<close>

definition anova_example :: "rat list \<Rightarrow> int list \<Rightarrow> int anova_dataset" where
  "anova_example values targets =
     \<lparr>a_samples = map (\<lambda>q. [float_of_rat q]) values, a_nfeatures = 1, a_targets = targets\<rparr>"

definition anova_example2 :: "int anova_dataset" where
  "anova_example2 =
     \<lparr>a_samples = map (map float_of_rat) [[1, 1], [1, 1], [1, 2], [1, 2]],
      a_nfeatures = 2, a_targets = [0, 0, 1, 1]\<rparr>"

section \<open>Properties of MaximalVote\<close>

text \<open>
  C10. Called on an empty list of classifiers, \<^verbatim>\<open>MaximalVote.__call__\<close> returns the
  empty list of predictions; it raises nothing, reads no classifier, and leaves both of
  the combiner's states as they were.
\<close>

theorem MaximalVote_call_empty:
  "MaximalVote_call iteritems self [] = Inr ([], self)"
  by (simp add: MaximalVote_call_def)

lemma tallied_empty: "tallied [] (\<lambda>l. 0)"
  by (simp add: tallied_def)

lemma count_label_tallied:
  assumes "tallied d f" and "\<forall>l. 0 \<le> f l"
  shows "tallied (count_label d k) (f(k := f k + 1))"
proof -
  have d: "distinct (map fst d)" and m: "\<And>l. map_of d l = (if f l = 0 then None else Some (f l))"
    using assms(1) by (simp_all add: tallied_def)
  have pos: "f k + 1 \<noteq> 0" using assms(2) [rule_format, of k] by linarith
  show ?thesis
  proof (cases "f k = 0")
    case True
    then have "map_of d k = None" using m by simp
    then have c: "count_label d k = AList.update k (0 + 1) (AList.update k 0 d)"
      by (simp add: count_label_def)
    show ?thesis unfolding c tallied_def using d m True
      by (auto simp: update_conv' distinct_update)
  next
    case False
    then have "map_of d k = Some (f k)" using m by simp
    then have c: "count_label d k = AList.update k (f k + 1) d"
      by (simp add: count_label_def)
    show ?thesis unfolding c tallied_def using d m pos
      by (auto simp: update_conv' distinct_update)
  qed
qed

lemma foldl_count_label_tallied:
  "tallied d f \<Longrightarrow> \<forall>l. 0 \<le> f l \<Longrightarrow>
   tallied (foldl count_label d ls) (\<lambda>l. f l + int (count_list ls l))"
proof (induction ls arbitrary: d f)
  case Nil
  then show ?case by simp
next
  case (Cons k ls)
  have t: "tallied (count_label d k) (f(k := f k + 1))"
    using Cons.prems by (rule count_label_tallied)
  have nn: "\<forall>l. 0 \<le> (f(k := f k + 1)) l" using Cons.prems(2) by (simp add: add_nonneg_nonneg)
  have "tallied (foldl count_label (count_label d k) ls)
          (\<lambda>l. (f(k := f k + 1)) l + int (count_list ls l))"
    using Cons.IH [OF t nn] .
  moreover have "(\<lambda>l. (f(k := f k + 1)) l + int (count_list ls l))
               = (\<lambda>l. f l + int (count_list (k # ls) l))"
    by (rule ext) simp
  ultimately show ?case by simp
qed

lemma tally_labels_in_range:
  "i < length alc \<Longrightarrow>
   tally_labels alc i ls = Inr (alc[i := foldl count_label (alc ! i) ls])"
  by (induction ls arbitrary: alc) simp_all

lemma tally_labels_Nil: "as_sequence p = [] \<Longrightarrow> tally_labels alc i (as_sequence p) = Inr alc"
  by simp

lemma tallied_cong: "tallied d f \<Longrightarrow> (\<And>l. f l = g l) \<Longrightarrow> tallied d g"
  by (simp add: tallied_def)

lemma tally_samples_tallied:
  assumes "\<forall>j<length alc. tallied (alc ! j) (F j)"
    and "\<forall>j l. 0 \<le> F j l"
    and "i + length ps \<le> length alc"
  shows "\<exists>alc'. tally_samples alc i ps = Inr alc' \<and> length alc' = length alc \<and>
           (\<forall>j<length alc. tallied (alc' ! j)
              (\<lambda>l. F j l + (if i \<le> j \<and> j < i + length ps
                             then int (count_list (as_sequence (ps ! (j - i))) l) else 0)))"
  using assms
proof (induction ps arbitrary: alc i F)
  case Nil
  have "tallied (alc ! j) (F j) \<Longrightarrow> tallied (alc ! j)
          (\<lambda>l. F j l + (if i \<le> j \<and> j < i + length ([] :: 'a prediction list)
                         then int (count_list (as_sequence ([] ! (j - i))) l) else 0))" for j
    by (erule tallied_cong) auto
  then show ?case using Nil.prems(1) by simp
next
  case (Cons p ps)
  let ?c = "\<lambda>l. int (count_list (as_sequence p) l)"
  let ?alc1 = "alc[i := foldl count_label (alc ! i) (as_sequence p)]"
  let ?F1 = "F(i := \<lambda>l. F i l + ?c l)"
  have i: "i < length alc" using Cons.prems(3) by simp
  have step: "tally_labels alc i (as_sequence p) = Inr ?alc1"
    using i by (rule tally_labels_in_range)
  have ti: "tallied (foldl count_label (alc ! i) (as_sequence p)) (\<lambda>l. F i l + ?c l)"
    using Cons.prems(1,2) i by (intro foldl_count_label_tallied) auto
  have t1: "\<forall>j<length ?alc1. tallied (?alc1 ! j) (?F1 j)"
    using Cons.prems(1) ti by (auto simp: nth_list_update)
  have nn1: "\<forall>j l. 0 \<le> ?F1 j l" using Cons.prems(2) by simp
  have len1: "Suc i + length ps \<le> length ?alc1" using Cons.prems(3) by simp
  from Cons.IH [OF t1 nn1 len1] obtain alc' where
    r: "tally_samples ?alc1 (Suc i) ps = Inr alc'" and l: "length alc' = length ?alc1"
    and t: "\<forall>j<length ?alc1. tallied (alc' ! j)
              (\<lambda>l. ?F1 j l + (if Suc i \<le> j \<and> j < Suc i + length ps
                             then int (count_list (as_sequence (ps ! (j - Suc i))) l) else 0))"
    by blast
  have "tally_samples alc i (p # ps) = Inr alc'" using step r by simp
  moreover have "length alc' = length alc" using l by simp
  moreover have "\<forall>j<length alc. tallied (alc' ! j)
              (\<lambda>l. F j l + (if i \<le> j \<and> j < i + length (p # ps)
                             then int (count_list (as_sequence ((p # ps) ! (j - i))) l) else 0))"
  proof (intro allI impI)
    fix j assume j: "j < length alc"
    then have "tallied (alc' ! j)
              (\<lambda>l. ?F1 j l + (if Suc i \<le> j \<and> j < Suc i + length ps
                             then int (count_list (as_sequence (ps ! (j - Suc i))) l) else 0))"
      using t by simp
    then show "tallied (alc' ! j)
              (\<lambda>l. F j l + (if i \<le> j \<and> j < i + length (p # ps)
                             then int (count_list (as_sequence ((p # ps) ! (j - i))) l) else 0))"
      by (rule tallied_cong) (auto simp: nth_Cons' Suc_diff_Suc)
  qed
  ultimately show ?case by blast
qed

lemma votes_Nil: "votes [] i l = 0"
  by (simp add: votes_def)

lemma votes_Cons:
  "votes (ps # pss) i l =
     (if i < length ps then int (count_list (as_sequence (ps ! i)) l) else 0) + votes pss i l"
  by (simp add: votes_def)

lemma votes_nonneg: "0 \<le> votes pss i l"
  by (induction pss) (simp_all add: votes_Nil votes_Cons)

lemma tally_clfs_tallied:
  assumes "map predictions_state clfs = map (\<lambda>ps. \<lparr>enabled = True, held = Some ps\<rparr>) pss"
    and "\<forall>ps\<in>set pss. length ps \<le> length alc"
    and "\<forall>j<length alc. tallied (alc ! j) (F j)"
    and "\<forall>j l. 0 \<le> F j l"
  shows "\<exists>alc'. tally_clfs (Some alc) clfs = Inr (Some alc') \<and> length alc' = length alc \<and>
           (\<forall>j<length alc. tallied (alc' ! j) (\<lambda>l. F j l + votes pss j l))"
  using assms
proof (induction clfs arbitrary: pss alc F)
  case Nil
  then show ?case by (simp add: votes_Nil)
next
  case (Cons clf clfs)
  from Cons.prems(1) obtain ps pss' where pss: "pss = ps # pss'"
    and c: "predictions_state clf = \<lparr>enabled = True, held = Some ps\<rparr>"
    and rest: "map predictions_state clfs = map (\<lambda>ps. \<lparr>enabled = True, held = Some ps\<rparr>) pss'"
    by (cases pss) auto
  have len: "0 + length ps \<le> length alc" using Cons.prems(2) pss by simp
  from tally_samples_tallied [OF Cons.prems(3,4) len] obtain alc1 where
    r1: "tally_samples alc 0 ps = Inr alc1" and l1: "length alc1 = length alc"
    and t1: "\<forall>j<length alc. tallied (alc1 ! j)
              (\<lambda>l. F j l + (if 0 \<le> j \<and> j < 0 + length ps
                             then int (count_list (as_sequence (ps ! (j - 0))) l) else 0))"
    by blast
  let ?F1 = "\<lambda>j l. F j l + (if j < length ps
                             then int (count_list (as_sequence (ps ! j)) l) else 0)"
  have t1': "\<forall>j<length alc1. tallied (alc1 ! j) (?F1 j)"
    using t1 l1 by (simp cong: if_cong)
  have nn1: "\<forall>j l. 0 \<le> ?F1 j l" using Cons.prems(4) by simp
  have len1: "\<forall>ps\<in>set pss'. length ps \<le> length alc1" using Cons.prems(2) pss l1 by simp
  from Cons.IH [OF rest len1 t1' nn1] obtain alc' where
    r: "tally_clfs (Some alc1) clfs = Inr (Some alc')" and l: "length alc' = length alc1"
    and t: "\<forall>j<length alc1. tallied (alc' ! j) (\<lambda>l. ?F1 j l + votes pss' j l)"
    by blast
  have "tally_clfs (Some alc) (clf # clfs) = Inr (Some alc')"
    using c r1 r by (simp add: isStateEnabled_def getState_def)
  moreover have "length alc' = length alc" using l l1 by simp
  moreover have "\<forall>j<length alc. tallied (alc' ! j) (\<lambda>l. F j l + votes pss j l)"
  proof (intro allI impI)
    fix j assume "j < length alc"
    then have "tallied (alc' ! j) (\<lambda>l. ?F1 j l + votes pss' j l)" using t l1 by simp
    then show "tallied (alc' ! j) (\<lambda>l. F j l + votes pss j l)"
      by (rule tallied_cong) (simp add: pss votes_Cons)
  qed
  ultimately show ?case by blast
qed

lemma tally_clfs_None:
  "predictions_state clf = \<lparr>enabled = True, held = Some ps\<rparr> \<Longrightarrow>
   tally_clfs None (clf # clfs) = tally_clfs (Some (replicate (length ps) [])) (clf # clfs)"
  by (simp add: isStateEnabled_def getState_def)

lemma max_scan:
  "foldl max_step ([], - 1) xs =
     (map fst (filter (\<lambda>kv. snd kv = Max (insert (- 1) (snd ` set xs))) xs),
      Max (insert (- 1) (snd ` set xs)))"
proof (induction xs rule: rev_induct)
  case Nil
  then show ?case by simp
next
  case (snoc kv xs)
  obtain k v where kv: "kv = (k, v)" by (cases kv)
  define M where "M = Max (insert (- 1) (snd ` set xs))"
  have le: "\<And>x. x \<in> set xs \<Longrightarrow> snd x \<le> M" by (simp add: M_def)
  have M': "Max (insert (- 1) (snd ` set (xs @ [kv]))) = max v M"
    by (simp add: kv insert_commute M_def)
  have IH: "foldl max_step ([], - 1) xs = (map fst (filter (\<lambda>kv. snd kv = M) xs), M)"
    using snoc.IH by (simp add: M_def)
  have step: "foldl max_step ([], - 1) (xs @ [kv])
                = max_step (map fst (filter (\<lambda>kv. snd kv = M) xs), M) (k, v)"
    by (simp add: IH kv)
  consider "M < v" | "v = M" | "v < M" by linarith
  then have "max_step (map fst (filter (\<lambda>kv. snd kv = M) xs), M) (k, v)
               = (map fst (filter (\<lambda>kv. snd kv = max v M) (xs @ [kv])), max v M)"
  proof cases
    case 1
    then have "filter (\<lambda>kv. snd kv = v) xs = []"
      using le by (fastforce simp: filter_empty_conv)
    then show ?thesis using 1 by (simp add: kv max_step_def max_def)
  next
    case 2
    then show ?thesis by (simp add: kv max_step_def)
  next
    case 3
    then show ?thesis by (simp add: kv max_step_def max_def)
  qed
  then show ?case unfolding M' step .
qed

lemma filter_eq_single: "distinct xs \<Longrightarrow> x \<in> set xs \<Longrightarrow> filter (\<lambda>y. y = x) xs = [x]"
  by (induction xs) (auto simp: filter_empty_conv)

lemma vote_unique_max:
  assumes t: "tallied d f"
    and pos: "0 < f l"
    and max: "\<forall>l'. l' \<noteq> l \<longrightarrow> f l' < f l"
    and it: "mset (iteritems d) = mset d"
  shows "vote iteritems d = Inr l"
proof -
  let ?xs = "iteritems d"
  have dk: "distinct (map fst d)" and m: "\<And>k. map_of d k = (if f k = 0 then None else Some (f k))"
    using t by (simp_all add: tallied_def)
  have set_eq: "set ?xs = set d" using it by (rule mset_eq_setD)
  have "distinct d" using dk by (simp add: distinct_map)
  then have dist: "distinct ?xs" using mset_eq_imp_distinct_iff [OF it] by simp
  have mem: "(l, f l) \<in> set ?xs"
    using m [of l] pos set_eq by (auto dest: map_of_SomeD)
  have val: "v = f k" if "(k, v) \<in> set ?xs" for k v
  proof -
    have "map_of d k = Some v" using that set_eq dk by simp
    then show ?thesis using m [of k] by (auto split: if_splits)
  qed
  have le: "snd x \<le> f l" if "x \<in> set ?xs" for x
  proof -
    obtain k v where x: "x = (k, v)" by (cases x)
    have "v = f k" using that val x by simp
    then show ?thesis using max x by (cases "k = l") auto
  qed
  have M: "Max (insert (- 1) (snd ` set ?xs)) = f l"
  proof (rule Max_eqI)
    show "finite (insert (- 1) (snd ` set ?xs))" by simp
    show "y \<le> f l" if "y \<in> insert (- 1) (snd ` set ?xs)" for y
      using that le pos by auto
    show "f l \<in> insert (- 1) (snd ` set ?xs)" using mem by force
  qed
  have "filter (\<lambda>kv. snd kv = f l) ?xs = filter (\<lambda>y. y = (l, f l)) ?xs"
  proof (rule filter_cong [OF refl])
    fix x assume x: "x \<in> set ?xs"
    obtain k v where kv: "x = (k, v)" by (cases x)
    have v: "v = f k" using x val kv by simp
    show "(snd x = f l) = (x = (l, f l))"
      using max v kv by (cases "k = l") auto
  qed
  also have "\<dots> = [(l, f l)]" using dist mem by (rule filter_eq_single)
  finally have "foldl max_step ([], - 1) ?xs = ([l], f l)"
    unfolding max_scan M by simp
  then show ?thesis by (simp add: vote_def)
qed

lemma select_votes_all:
  "list_all2 (\<lambda>d k. vote iteritems d = Inr k) alc ks \<Longrightarrow> select_votes iteritems alc = Inr ks"
  by (induction alc ks rule: list_all2_induct) simp_all

text \<open>
  Away from ties the call does what the combiner is meant to do. Let the classifiers have
  their \<^verbatim>\<open>predictions\<close> state enabled and set, to the prediction lists \<open>pss\<close>; let
  there be at least one classifier, let no list be longer than the first, and let every
  sample \<open>i\<close> of the first list have one label \<open>w i\<close> with strictly more votes than any
  other. Then, whatever the order in which the dictionaries are iterated, the call returns
  the labels \<open>w i\<close>, one per sample; the tally of sample \<open>i\<close> holds, for each label, the
  number of times it is predicted for that sample over all classifiers, each label of a
  sequence counted once per occurrence; the tallies and the result are stored in the
  combiner's states.
\<close>

lemma MaximalVote_call_unique_maximum:
  assumes it: "\<forall>d. mset (iteritems d) = mset d"
    and clfs: "map predictions_state clfs = map (\<lambda>ps. \<lparr>enabled = True, held = Some ps\<rparr>) pss"
    and ne: "pss \<noteq> []"
    and len: "\<forall>ps\<in>set pss. length ps \<le> length (hd pss)"
    and win: "\<forall>i<length (hd pss). 0 < votes pss i (w i) \<and>
                (\<forall>l'. l' \<noteq> w i \<longrightarrow> votes pss i l' < votes pss i (w i))"
  shows "\<exists>alc. MaximalVote_call iteritems self clfs =
            Inr (map w [0..<length (hd pss)],
                 self\<lparr>mv_all_label_counts := setState (mv_all_label_counts self) alc,
                      mv_predictions :=
                        setState (mv_predictions self) (map w [0..<length (hd pss)])\<rparr>)
          \<and> length alc = length (hd pss)
          \<and> (\<forall>i<length (hd pss). \<forall>l.
                map_of (alc ! i) l = (if votes pss i l = 0 then None else Some (votes pss i l)))"
proof -
  let ?n = "length (hd pss)"
  obtain ps pss' where pss: "pss = ps # pss'" using ne by (cases pss) auto
  obtain clf clfs' where c: "clfs = clf # clfs'" using clfs pss by (cases clfs) auto
  have st: "predictions_state clf = \<lparr>enabled = True, held = Some ps\<rparr>"
    using clfs pss c by simp
  have start: "tally_clfs None clfs = tally_clfs (Some (replicate ?n [])) clfs"
    unfolding c using st pss by (simp add: isStateEnabled_def getState_def)
  have len0: "\<forall>ps\<in>set pss. length ps \<le> length (replicate ?n ([] :: 'a label_counts))"
    using len by simp
  have t0: "\<forall>j<length (replicate ?n ([] :: 'a label_counts)).
              tallied (replicate ?n [] ! j) ((\<lambda>j l. 0) j)"
    by (simp add: tallied_empty)
  have nn0: "\<forall>j l. (0::int) \<le> (\<lambda>j l. 0) j l" by simp
  from tally_clfs_tallied [OF clfs len0 t0 nn0] obtain alc where
    r: "tally_clfs (Some (replicate ?n [])) clfs = Inr (Some alc)"
    and l: "length alc = ?n"
    and t: "\<forall>j<?n. tallied (alc ! j) (\<lambda>l. votes pss j l)"
    by auto
  have "list_all2 (\<lambda>d k. vote iteritems d = Inr k) alc (map w [0..<?n])"
    unfolding list_all2_conv_all_nth
  proof (intro conjI allI impI)
    show "length alc = length (map w [0..<?n])" using l by simp
    fix i assume "i < length alc"
    then have i: "i < ?n" using l by simp
    have "vote iteritems (alc ! i) = Inr (w i)"
      using t i win it by (intro vote_unique_max [where f = "\<lambda>l. votes pss i l"]) auto
    then show "vote iteritems (alc ! i) = Inr (map w [0..<?n] ! i)" using i by simp
  qed
  then have sel: "select_votes iteritems alc = Inr (map w [0..<?n])"
    by (rule select_votes_all)
  have "MaximalVote_call iteritems self clfs =
          Inr (map w [0..<?n],
               self\<lparr>mv_all_label_counts := setState (mv_all_label_counts self) alc,
                    mv_predictions := setState (mv_predictions self) (map w [0..<?n])\<rparr>)"
    using start r sel c by (simp add: MaximalVote_call_def)
  moreover have "\<forall>i<?n. \<forall>l.
      map_of (alc ! i) l = (if votes pss i l = 0 then None else Some (votes pss i l))"
    using t by (simp add: tallied_def)
  ultimately show ?thesis using l by blast
qed

text \<open>Three classifiers predict 1, 1 and 2 for one sample; the tally is
  \<open>{1: 2, 2: 1}\<close> and the vote is 1, with the dictionary iterated in reverse order.\<close>

lemma MaximalVote_call_unique_maximum_example:
  "\<exists>alc. MaximalVote_call rev MaximalVote_init
            [clf_predicting [Label (1::int)], clf_predicting [Label 1], clf_predicting [Label 2]] =
            Inr ([1], \<lparr>mv_predictions = \<lparr>enabled = True, held = Some [1]\<rparr>,
                       mv_all_label_counts = \<lparr>enabled = False, held = None\<rparr>\<rparr>)
        \<and> map_of ((alc :: int label_counts list) ! 0) 1 = Some 2 \<and> map_of (alc ! 0) 2 = Some 1"
proof -
  let ?pss = "[[Label (1::int)], [Label 1], [Label 2]]"
  let ?clfs = "[clf_predicting [Label (1::int)], clf_predicting [Label 1], clf_predicting [Label 2]]"
  have h1: "\<forall>d :: int label_counts. mset (rev d) = mset d" by simp
  have h2: "map predictions_state ?clfs = map (\<lambda>ps. \<lparr>enabled = True, held = Some ps\<rparr>) ?pss"
    by (simp add: clf_predicting_def)
  have h3: "?pss \<noteq> []" by simp
  have h4: "\<forall>ps\<in>set ?pss. length ps \<le> length (hd ?pss)" by simp
  have h5: "\<forall>i<length (hd ?pss). 0 < votes ?pss i ((\<lambda>i. 1) i) \<and>
                (\<forall>l'. l' \<noteq> (\<lambda>i. 1) i \<longrightarrow> votes ?pss i l' < votes ?pss i ((\<lambda>i. 1) i))"
    by (simp add: votes_def)
  from MaximalVote_call_unique_maximum [OF h1 h2 h3 h4 h5, of MaximalVote_init]
  obtain alc where
    r: "MaximalVote_call rev MaximalVote_init ?clfs =
          Inr ([1], MaximalVote_init
                 \<lparr>mv_all_label_counts := setState (mv_all_label_counts MaximalVote_init) alc,
                  mv_predictions := setState (mv_predictions MaximalVote_init) [1]\<rparr>)"
    and m: "\<forall>l. map_of (alc ! 0) l =
              (if votes ?pss 0 l = 0 then None else Some (votes ?pss 0 l))"
    by auto
  have "map_of (alc ! 0) 1 = Some 2" "map_of (alc ! 0) 2 = Some 1"
    using m by (simp_all add: votes_def)
  then show ?thesis using r by (auto simp: MaximalVote_init_def setState_def)
qed

text \<open>One classifier, state enabled, whose prediction for the only sample is the empty
  sequence of labels: no label is tallied and the assertion on \<open>maxk\<close> fails.\<close>

lemma MaximalVote_call_no_label:
  "MaximalVote_call (\<lambda>d. d) MaximalVote_init [clf_predicting [Labels ([] :: int list)]]
     = Inl AssertionError"
  by (simp add: MaximalVote_call_def clf_predicting_def isStateEnabled_def getState_def
        vote_def)

text \<open>The tallies have the length of the first classifier's predictions: a later, longer
  list indexes out of range.\<close>

lemma MaximalVote_call_longer_predictions:
  "MaximalVote_call (\<lambda>d. d) MaximalVote_init
     [clf_predicting [Label (1::int)], clf_predicting [Label 1, Label 2]] = Inl IndexError"
  by (simp add: MaximalVote_call_def clf_predicting_def isStateEnabled_def getState_def
        count_label_def)

text \<open>The vote for one sample, read off the labels that attain the maximum: none fails
  the assertion, one is returned, more than one reach the call of \<^verbatim>\<open>warning\<close>.\<close>

lemma vote_of_scan:
  "vote iteritems d =
     (case map fst (filter (\<lambda>kv. snd kv = Max (insert (- 1) (snd ` set (iteritems d))))
                           (iteritems d)) of
        [] \<Rightarrow> Inl AssertionError
      | [k] \<Rightarrow> Inr k
      | _ \<Rightarrow> Inl (NameError ''warning''))"
proof -
  define ks where "ks = map fst (filter (\<lambda>kv. snd kv = Max (insert (- 1) (snd ` set (iteritems d))))
                           (iteritems d))"
  have scan: "foldl max_step ([], - 1) (iteritems d)
                = (ks, Max (insert (- 1) (snd ` set (iteritems d))))"
    unfolding ks_def by (rule max_scan)
  have "vote iteritems d =
     (case ks of [] \<Rightarrow> Inl AssertionError | [k] \<Rightarrow> Inr k | _ \<Rightarrow> Inl (NameError ''warning''))"
  proof (cases ks)
    case Nil
    then show ?thesis by (simp add: vote_def scan)
  next
    case (Cons k rest)
    then show ?thesis by (cases rest) (simp_all add: vote_def scan unbound_name_def)
  qed
  then show ?thesis unfolding ks_def .
qed

lemma vote_returns_or_warns:
  assumes t: "tallied d f" and pos: "0 < f l" and it: "mset (iteritems d) = mset d"
  shows "(\<exists>k. vote iteritems d = Inr k) \<or> vote iteritems d = Inl (NameError ''warning'')"
proof -
  let ?xs = "iteritems d"
  let ?M = "Max (insert (- 1) (snd ` set ?xs))"
  have m: "map_of d l = Some (f l)" using t pos by (simp add: tallied_def)
  have set_eq: "set ?xs = set d" using it by (rule mset_eq_setD)
  have mem: "(l, f l) \<in> set ?xs" using m set_eq by (auto dest: map_of_SomeD)
  have "f l \<le> ?M" using mem by (intro Max_ge) force+
  then have "?M \<noteq> - 1" using pos by linarith
  moreover have "?M \<in> insert (- 1) (snd ` set ?xs)" by (intro Max_in) simp_all
  ultimately have "?M \<in> snd ` set ?xs" by blast
  then have "filter (\<lambda>kv. snd kv = ?M) ?xs \<noteq> []"
    by (force simp: filter_empty_conv)
  then show ?thesis unfolding vote_of_scan
    by (cases "filter (\<lambda>kv. snd kv = ?M) ?xs"; cases "tl (filter (\<lambda>kv. snd kv = ?M) ?xs)")
       (auto split: list.splits)
qed

lemma vote_tie:
  assumes t: "tallied d f" and pos: "0 < f l1" and ne: "l1 \<noteq> l2" and eq: "f l2 = f l1"
    and max: "\<forall>l. f l \<le> f l1" and it: "mset (iteritems d) = mset d"
  shows "vote iteritems d = Inl (NameError ''warning'')"
proof -
  let ?xs = "iteritems d"
  let ?M = "Max (insert (- 1) (snd ` set ?xs))"
  have dk: "distinct (map fst d)" and m: "\<And>k. map_of d k = (if f k = 0 then None else Some (f k))"
    using t by (simp_all add: tallied_def)
  have set_eq: "set ?xs = set d" using it by (rule mset_eq_setD)
  have mem1: "(l1, f l1) \<in> set ?xs" using m [of l1] pos set_eq by (auto dest: map_of_SomeD)
  have mem2: "(l2, f l1) \<in> set ?xs" using m [of l2] pos eq set_eq by (auto dest: map_of_SomeD)
  have val: "v = f k" if "(k, v) \<in> set ?xs" for k v
  proof -
    have "map_of d k = Some v" using that set_eq dk by simp
    then show ?thesis using m [of k] by (auto split: if_splits)
  qed
  have M: "?M = f l1"
  proof (rule Max_eqI)
    show "finite (insert (- 1) (snd ` set ?xs))" by simp
    show "y \<le> f l1" if y: "y \<in> insert (- 1) (snd ` set ?xs)" for y
    proof (cases "y = - 1")
      case True
      then show ?thesis using pos by simp
    next
      case False
      then obtain k where "(k, y) \<in> set ?xs" using y by auto
      then have "y = f k" by (rule val)
      then show ?thesis using max by simp
    qed
    show "f l1 \<in> insert (- 1) (snd ` set ?xs)" using mem1 by force
  qed
  let ?ks = "map fst (filter (\<lambda>kv. snd kv = ?M) ?xs)"
  have "l1 \<in> set ?ks" "l2 \<in> set ?ks" using mem1 mem2 M by force+
  then have "2 \<le> card (set ?ks)" using ne
    by (metis card_mono List.finite_set empty_subsetI insert_subset card_2_iff)
  then have "2 \<le> length ?ks" using card_length [of ?ks] by linarith
  then show ?thesis unfolding vote_of_scan
    by (cases ?ks; cases "tl ?ks") (auto split: list.splits)
qed

lemma select_votes_warns:
  assumes "\<forall>d\<in>set alc. (\<exists>k. vote iteritems d = Inr k) \<or>
                          vote iteritems d = Inl (NameError ''warning'')"
    and "\<exists>d\<in>set alc. vote iteritems d = Inl (NameError ''warning'')"
  shows "select_votes iteritems alc = Inl (NameError ''warning'')"
  using assms
proof (induction alc)
  case Nil
  then show ?case by simp
next
  case (Cons d alc)
  show ?case
  proof (cases "vote iteritems d")
    case (Inl e)
    then show ?thesis using Cons.prems(1) by auto
  next
    case (Inr k)
    then have "\<exists>d\<in>set alc. vote iteritems d = Inl (NameError ''warning'')"
      using Cons.prems(2) by auto
    then have "select_votes iteritems alc = Inl (NameError ''warning'')"
      using Cons.IH Cons.prems(1) by simp
    then show ?thesis using Inr by simp
  qed
qed

text \<open>
  Every tie ends in \<^verbatim>\<open>NameError\<close>: when each sample has a label with a vote, and at
  some sample two different labels share the maximal count, the call raises on the name
  \<^verbatim>\<open>warning\<close>, whatever the order of iteration.
\<close>

lemma MaximalVote_call_every_tie:
  assumes it: "\<forall>d. mset (iteritems d) = mset d"
    and clfs: "map predictions_state clfs = map (\<lambda>ps. \<lparr>enabled = True, held = Some ps\<rparr>) pss"
    and ne: "pss \<noteq> []"
    and len: "\<forall>ps\<in>set pss. length ps \<le> length (hd pss)"
    and some: "\<forall>j<length (hd pss). \<exists>l. 0 < votes pss j l"
    and i: "i < length (hd pss)"
    and tie: "l1 \<noteq> l2" "0 < votes pss i l1" "votes pss i l2 = votes pss i l1"
      "\<forall>l. votes pss i l \<le> votes pss i l1"
  shows "MaximalVote_call iteritems self clfs = Inl (NameError ''warning'')"
proof -
  let ?n = "length (hd pss)"
  obtain ps pss' where pss: "pss = ps # pss'" using ne by (cases pss) auto
  obtain clf clfs' where c: "clfs = clf # clfs'" using clfs pss by (cases clfs) auto
  have st: "predictions_state clf = \<lparr>enabled = True, held = Some ps\<rparr>"
    using clfs pss c by simp
  have start: "tally_clfs None clfs = tally_clfs (Some (replicate ?n [])) clfs"
    unfolding c using st pss by (simp add: isStateEnabled_def getState_def)
  have len0: "\<forall>ps\<in>set pss. length ps \<le> length (replicate ?n ([] :: 'a label_counts))"
    using len by simp
  have t0: "\<forall>j<length (replicate ?n ([] :: 'a label_counts)).
              tallied (replicate ?n [] ! j) ((\<lambda>j l. 0) j)"
    by (simp add: tallied_empty)
  have nn0: "\<forall>j l. (0::int) \<le> (\<lambda>j l. 0) j l" by simp
  from tally_clfs_tallied [OF clfs len0 t0 nn0] obtain alc where
    r: "tally_clfs (Some (replicate ?n [])) clfs = Inr (Some alc)"
    and l: "length alc = ?n"
    and t: "\<forall>j<?n. tallied (alc ! j) (\<lambda>l. votes pss j l)"
    by auto
  have all: "\<forall>d\<in>set alc. (\<exists>k. vote iteritems d = Inr k) \<or>
                          vote iteritems d = Inl (NameError ''warning'')"
  proof
    fix d assume "d \<in> set alc"
    then obtain j where j: "j < ?n" and d: "d = alc ! j"
      using l by (auto simp: in_set_conv_nth)
    obtain l where "0 < votes pss j l" using some j by blast
    then show "(\<exists>k. vote iteritems d = Inr k) \<or> vote iteritems d = Inl (NameError ''warning'')"
      unfolding d using t j it by (intro vote_returns_or_warns [where f = "\<lambda>l. votes pss j l"]) auto
  qed
  have ti: "tallied (alc ! i) (\<lambda>l. votes pss i l)" using t i by simp
  have "vote iteritems (alc ! i) = Inl (NameError ''warning'')"
  proof (rule vote_tie [where f = "\<lambda>l. votes pss i l" and ?l1.0 = l1 and ?l2.0 = l2])
    show "tallied (alc ! i) (\<lambda>l. votes pss i l)" by (rule ti)
    show "0 < votes pss i l1" "l1 \<noteq> l2" "votes pss i l2 = votes pss i l1"
      "\<forall>l. votes pss i l \<le> votes pss i l1" by (rule tie)+
    show "mset (iteritems (alc ! i)) = mset (alc ! i)" using it by simp
  qed
  moreover have "alc ! i \<in> set alc" using i l by simp
  ultimately have "\<exists>d\<in>set alc. vote iteritems d = Inl (NameError ''warning'')" by blast
  with all have "select_votes iteritems alc = Inl (NameError ''warning'')"
    by (rule select_votes_warns)
  then show ?thesis using start r c by (simp add: MaximalVote_call_def)
qed

text \<open>
  C1 (the code at the failing input). Two classifiers with the \<^verbatim>\<open>predictions\<close> state
  enabled predict the labels 1 and 2 for the one sample: both labels attain the maximal
  count 1. \<^verbatim>\<open>MaximalVote.__call__\<close> neither warns nor returns the first of them: it
  raises \<^verbatim>\<open>NameError\<close> on \<^verbatim>\<open>warning\<close>, in either order of iteration over the tally.
\<close>

theorem MaximalVote_call_tie_NameError:
  "MaximalVote_call (\<lambda>d. d) MaximalVote_init
     [clf_predicting [Label (1::int)], clf_predicting [Label 2]] = Inl (NameError ''warning'')
   \<and> MaximalVote_call rev MaximalVote_init
     [clf_predicting [Label (1::int)], clf_predicting [Label 2]] = Inl (NameError ''warning'')"
  by (simp add: MaximalVote_call_def clf_predicting_def isStateEnabled_def getState_def
        count_label_def vote_def max_step_def unbound_name_def)

text \<open>The same three classifiers with the state \<^verbatim>\<open>all_label_counts\<close> enabled: the
  tally \<open>{1: 2, 2: 1}\<close> is stored with the vote.\<close>

lemma MaximalVote_call_majority_example:
  "MaximalVote_call rev
     (MaximalVote_init\<lparr>mv_all_label_counts := \<lparr>enabled = True, held = None\<rparr>\<rparr>)
     [clf_predicting [Label (1::int)], clf_predicting [Label 1], clf_predicting [Label 2]]
   = Inr ([1], \<lparr>mv_predictions = \<lparr>enabled = True, held = Some [1]\<rparr>,
                mv_all_label_counts = \<lparr>enabled = True, held = Some [[(1, 2), (2, 1)]]\<rparr>\<rparr>)"
  by code_simp

section \<open>Properties of Dataset\<close>

lemma ndmin2_ndim: "2 \<le> length (shape (ndmin2 a))"
  by (simp add: ndmin2_def)

lemma ndmin2_two: "length (shape a) = 2 \<Longrightarrow> ndmin2 a = a"
  by (simp add: ndmin2_def)

lemma shape_two: "length xs = 2 \<Longrightarrow> \<exists>n f. xs = [n, f]"
  by (cases xs; cases "tl xs") auto

lemma Dataset_init_invariant:
  assumes "Dataset_init s l c = Inr d"
  shows "invariant d"
proof -
  have two: "length (shape (ndmin2 s)) = 2"
    using assms ndmin2_ndim [of s]
    by (auto simp: Dataset_init_def Let_def split: if_splits)
  show ?thesis
    using assms two
    by (auto simp: Dataset_init_def Let_def invariant_def setLabels_def setChunks_def
          split: if_splits sum.splits arg.splits option.splits)
qed

lemma Dataset_init_fields:
  assumes "invariant A"
  shows "Dataset_init (samples A) (Sequence (labels A)) (Some (Sequence (chunks A)))
           = Inr (A\<lparr>origlabels := None, uniqueLabels := None, uniqueChunks := None\<rparr>)"
  using assms
  by (simp add: Dataset_init_def Let_def invariant_def setLabels_def setChunks_def ndmin2_two)

lemma norm_indices_length: "norm_indices n ids = Inr js \<Longrightarrow> length js = length ids"
  by (induction ids arbitrary: js) (auto split: sum.splits)

lemma selectSamples_invariant: "selectSamples self m = Inr d \<Longrightarrow> invariant d"
  by (auto simp: selectSamples_def Let_def split: sum.splits intro: Dataset_init_invariant)

lemma selectFeatures_invariant: "selectFeatures self ids = Inr d \<Longrightarrow> invariant d"
  by (auto simp: selectFeatures_def split: sum.splits intro: Dataset_init_invariant)

lemma selectSamples_single:
  assumes "selectSamples self (Scalar i) = Inr d"
  shows "getNSamples d = Inr 1"
proof -
  from assms obtain s ls cs where
    s: "index_axis0 (samples self) [i] = Inr s"
    and d: "Dataset_init s (Sequence ls) (Some (Sequence cs)) = Inr d"
    by (auto simp: selectSamples_def Let_def split: sum.splits)
  from s obtain rest where "shape s = 1 # rest"
    by (auto simp: index_axis0_def split: list.splits sum.splits)
  then have "\<exists>rest'. shape (ndmin2 s) = 1 # rest'"
    by (cases rest) (simp_all add: ndmin2_def)
  moreover have "samples d = ndmin2 s"
    using d by (auto simp: Dataset_init_def Let_def setLabels_def setChunks_def
        split: if_splits sum.splits)
  ultimately show ?thesis by (auto simp: getNSamples_def)
qed

lemma Dataset_iadd_result:
  assumes A: "invariant A" and B: "invariant B"
  shows "(getNFeatures A \<noteq> getNFeatures B \<longrightarrow> Dataset_iadd A B = Inl (ValueError ''features'')) \<and>
         (getNFeatures A = getNFeatures B \<longrightarrow>
            Dataset_iadd A B =
              Inr (A\<lparr>samples := \<lparr>shape = [len_array (samples A) + len_array (samples B),
                                          shape (samples A) ! 1],
                                 elems = elems (samples A) @ elems (samples B)\<rparr>,
                     labels := labels A @ labels B, uniqueLabels := None,
                     chunks := chunks A @ chunks B, uniqueChunks := None\<rparr>))"
proof -
  have "length (shape (samples A)) = 2" "length (shape (samples B)) = 2"
    using A B by (simp_all add: invariant_def)
  then obtain n f m f' where a: "shape (samples A) = [n, f]" and b: "shape (samples B) = [m, f']"
    using shape_two [of "shape (samples A)"] shape_two [of "shape (samples B)"] by blast
  show ?thesis
    by (simp add: Dataset_iadd_def getNFeatures_def a b concatenate0_def len_array_def
        setLabels_def setChunks_def)
qed

lemma Dataset_iadd_invariant:
  assumes "invariant A" and "invariant B" and "Dataset_iadd A B = Inr d"
  shows "invariant d"
proof -
  have "getNFeatures A = getNFeatures B"
    using Dataset_iadd_result [OF assms(1,2)] assms(3) by auto
  then have "Dataset_iadd A B =
              Inr (A\<lparr>samples := \<lparr>shape = [len_array (samples A) + len_array (samples B),
                                          shape (samples A) ! 1],
                                 elems = elems (samples A) @ elems (samples B)\<rparr>,
                     labels := labels A @ labels B, uniqueLabels := None,
                     chunks := chunks A @ chunks B, uniqueChunks := None\<rparr>)"
    using Dataset_iadd_result [OF assms(1,2)] by simp
  then show ?thesis using assms by (auto simp: invariant_def len_array_def)
qed

lemma Dataset_add_invariant:
  assumes "invariant B" and "Dataset_add A B = Inr d"
  shows "invariant d"
proof -
  from assms(2) obtain out where
    o: "Dataset_init (samples A) (Sequence (labels A)) (Some (Sequence (chunks A))) = Inr out"
    and i: "Dataset_iadd out B = Inr d"
    by (auto simp: Dataset_add_def split: sum.splits)
  show ?thesis using Dataset_init_invariant [OF o] assms(1) i by (rule Dataset_iadd_invariant)
qed

lemma getRandomSamples_invariant:
  "getRandomSamples sample g self n = Inr (d, self', g') \<Longrightarrow> invariant d"
  by (auto simp: getRandomSamples_def Let_def split: prod.splits sum.splits
      intro: selectSamples_invariant)

lemma example_init: "Dataset_init example_samples (Sequence [0, 1]) None = Inr example_dataset"
  by code_simp

lemma example_selectFeatures: "selectFeatures example_dataset (Sequence [1])
         = Inr (dataset_of \<lparr>shape = [2, 1], elems = [2, 4]\<rparr> [0, 1] [0, 1])"
  by code_simp

lemma example_selectSamples: "selectSamples example_dataset (Sequence [1, 0])
         = Inr (dataset_of \<lparr>shape = [2, 2], elems = [3, 4, 1, 2]\<rparr> [1, 0] [1, 0])"
  by code_simp

lemma example_add: "Dataset_add example_dataset example_dataset
         = Inr (dataset_of \<lparr>shape = [4, 2], elems = [1, 2, 3, 4, 1, 2, 3, 4]\<rparr>
                  [0, 1, 0, 1] [0, 1, 0, 1])"
  by code_simp

lemma example_iadd: "Dataset_iadd example_dataset example_dataset
         = Inr (dataset_of \<lparr>shape = [4, 2], elems = [1, 2, 3, 4, 1, 2, 3, 4]\<rparr>
                  [0, 1, 0, 1] [0, 1, 0, 1])"
  by code_simp

lemma example_getRandomSamples: "getRandomSamples take_first () example_dataset (Scalar 1)
         = Inr (dataset_of example_samples [0, 1] [0, 1],
                example_dataset\<lparr>uniqueLabels := Some [0, 1]\<rparr>, ())"
  by code_simp

lemma example_selectSamples_single: "selectSamples example_dataset (Scalar (- 1))
         = Inr (dataset_of \<lparr>shape = [1, 2], elems = [3, 4]\<rparr> [1] [1])"
  by code_simp

text \<open>
  C3. Every dataset that the constructor, \<^verbatim>\<open>selectFeatures\<close>, \<^verbatim>\<open>selectSamples\<close>, the
  concatenation with a dataset that satisfies the invariant (in place, of a dataset that
  satisfies it), or \<^verbatim>\<open>getRandomSamples\<close> returns has samples of exactly two dimensions and as many labels and as many chunks as
  the first axis of the samples is long; \<^verbatim>\<open>selectSamples\<close> with a single index returns a
  dataset of one sample.
\<close>

theorem Dataset_invariant:
  "(Dataset_init s l c = Inr d1 \<longrightarrow> invariant d1) \<and>
   (selectFeatures self ids = Inr d2 \<longrightarrow> invariant d2) \<and>
   (selectSamples self m = Inr d3 \<longrightarrow> invariant d3) \<and>
   (invariant other \<longrightarrow> Dataset_add self other = Inr d4 \<longrightarrow> invariant d4) \<and>
   (getRandomSamples sample g self n = Inr (d5, self', g') \<longrightarrow> invariant d5) \<and>
   (invariant self \<longrightarrow> invariant other \<longrightarrow> Dataset_iadd self other = Inr d7 \<longrightarrow> invariant d7) \<and>
   (selectSamples self (Scalar i) = Inr d6 \<longrightarrow> getNSamples d6 = Inr 1)"
proof (intro conjI impI)
  show "Dataset_init s l c = Inr d1 \<Longrightarrow> invariant d1" by (rule Dataset_init_invariant)
  show "selectFeatures self ids = Inr d2 \<Longrightarrow> invariant d2" by (rule selectFeatures_invariant)
  show "selectSamples self m = Inr d3 \<Longrightarrow> invariant d3" by (rule selectSamples_invariant)
  show "invariant other \<Longrightarrow> Dataset_add self other = Inr d4 \<Longrightarrow> invariant d4"
    by (rule Dataset_add_invariant)
  show "getRandomSamples sample g self n = Inr (d5, self', g') \<Longrightarrow> invariant d5"
    by (rule getRandomSamples_invariant)
  show "invariant self \<Longrightarrow> invariant other \<Longrightarrow> Dataset_iadd self other = Inr d7
          \<Longrightarrow> invariant d7"
    by (rule Dataset_iadd_invariant)
  show "selectSamples self (Scalar i) = Inr d6 \<Longrightarrow> getNSamples d6 = Inr 1"
    by (rule selectSamples_single)
qed

text \<open>Witness for C3: a dataset of two samples and two features, built by the constructor
  and put through each of the operations.\<close>

theorem Dataset_invariant_witness:
  "Dataset_init example_samples (Sequence [0, 1]) None = Inr example_dataset
   \<and> invariant example_dataset
   \<and> selectFeatures example_dataset (Sequence [1])
       = Inr (dataset_of \<lparr>shape = [2, 1], elems = [2, 4]\<rparr> [0, 1] [0, 1])
   \<and> invariant (dataset_of \<lparr>shape = [2, 1], elems = [2, 4 :: int]\<rparr> [0, 1 :: int] [0, 1])
   \<and> selectSamples example_dataset (Scalar (- 1))
       = Inr (dataset_of \<lparr>shape = [1, 2], elems = [3, 4]\<rparr> [1] [1])
   \<and> invariant (dataset_of \<lparr>shape = [1, 2], elems = [3, 4 :: int]\<rparr> [1 :: int] [1])
   \<and> getNSamples (dataset_of \<lparr>shape = [1, 2], elems = [3, 4 :: int]\<rparr> [1 :: int] [1]) = Inr 1
   \<and> Dataset_add example_dataset example_dataset
       = Inr (dataset_of \<lparr>shape = [4, 2], elems = [1, 2, 3, 4, 1, 2, 3, 4]\<rparr>
                [0, 1, 0, 1] [0, 1, 0, 1])
   \<and> invariant (dataset_of \<lparr>shape = [4, 2], elems = [1, 2, 3, 4, 1, 2, 3, 4 :: int]\<rparr>
                [0, 1, 0, 1 :: int] [0, 1, 0, 1])
   \<and> Dataset_iadd example_dataset example_dataset
       = Inr (dataset_of \<lparr>shape = [4, 2], elems = [1, 2, 3, 4, 1, 2, 3, 4]\<rparr>
                [0, 1, 0, 1] [0, 1, 0, 1])
   \<and> getRandomSamples take_first () example_dataset (Scalar 1)
       = Inr (dataset_of example_samples [0, 1] [0, 1],
              example_dataset\<lparr>uniqueLabels := Some [0, 1]\<rparr>, ())
   \<and> invariant (dataset_of example_samples [0, 1 :: int] [0, 1])"
  using Dataset_invariant [where s = example_samples and l = "Sequence [0, 1]" and c = None
      and ?d1.0 = example_dataset and self = example_dataset and ids = "Sequence [1]"
      and ?d2.0 = "dataset_of \<lparr>shape = [2, 1], elems = [2, 4]\<rparr> [0, 1] [0, 1]"
      and m = "Scalar (- 1)" and i = "- 1"
      and ?d3.0 = "dataset_of \<lparr>shape = [1, 2], elems = [3, 4]\<rparr> [1] [1]"
      and ?d6.0 = "dataset_of \<lparr>shape = [1, 2], elems = [3, 4]\<rparr> [1] [1]"
      and other = example_dataset
      and ?d4.0 = "dataset_of \<lparr>shape = [4, 2], elems = [1, 2, 3, 4, 1, 2, 3, 4]\<rparr>
                [0, 1, 0, 1] [0, 1, 0, 1]"
      and ?d7.0 = "dataset_of \<lparr>shape = [4, 2], elems = [1, 2, 3, 4, 1, 2, 3, 4]\<rparr>
                [0, 1, 0, 1] [0, 1, 0, 1]"
      and sample = take_first and g = "()" and n = "Scalar 1"
      and ?d5.0 = "dataset_of example_samples [0, 1] [0, 1]"
      and self' = "example_dataset\<lparr>uniqueLabels := Some [0, 1]\<rparr>" and g' = "()"]
    example_init example_selectFeatures example_add example_iadd example_getRandomSamples
    example_selectSamples_single
  by simp

lemma getNFeatures_reset:
  "getNFeatures (A\<lparr>origlabels := x, uniqueLabels := y, uniqueChunks := z\<rparr>) = getNFeatures A"
  by (simp add: getNFeatures_def)

lemma invariant_reset:
  "invariant (A\<lparr>origlabels := x, uniqueLabels := y, uniqueChunks := z\<rparr>) = invariant A"
  by (simp add: invariant_def)

text \<open>
  C4. For datasets \<open>A\<close> and \<open>B\<close> that satisfy the invariant, \<^verbatim>\<open>A + B\<close> and the
  in-place \<^verbatim>\<open>A += B\<close> raise \<^verbatim>\<open>ValueError\<close> when the numbers of features differ;
  otherwise the result has as many samples as \<open>A\<close> and \<open>B\<close> together, the features of
  \<open>A\<close>, and the chunks, labels and sample values of \<open>A\<close> followed by those of \<open>B\<close>,
  unchanged.
\<close>

theorem Dataset_add_concat:
  assumes A: "invariant A" and B: "invariant B"
  shows "(getNFeatures A \<noteq> getNFeatures B \<longrightarrow>
            Dataset_add A B = Inl (ValueError ''features'') \<and>
            Dataset_iadd A B = Inl (ValueError ''features''))
       \<and> (getNFeatures A = getNFeatures B \<longrightarrow>
            (\<exists>D E. Dataset_add A B = Inr D \<and> Dataset_iadd A B = Inr E
               \<and> getNSamples D = Inr (length (labels A) + length (labels B))
               \<and> getNSamples E = Inr (length (labels A) + length (labels B))
               \<and> getNFeatures D = getNFeatures A \<and> getNFeatures E = getNFeatures A
               \<and> chunks D = chunks A @ chunks B \<and> chunks E = chunks A @ chunks B
               \<and> labels D = labels A @ labels B \<and> labels E = labels A @ labels B
               \<and> elems (samples D) = elems (samples A) @ elems (samples B)
               \<and> elems (samples E) = elems (samples A) @ elems (samples B)))"
proof -
  let ?A0 = "A\<lparr>origlabels := None, uniqueLabels := None, uniqueChunks := None\<rparr>"
  have add: "Dataset_add A B = Dataset_iadd ?A0 B"
    by (simp add: Dataset_add_def Dataset_init_fields [OF A])
  have A0: "invariant ?A0" using A by (simp add: invariant_reset)
  have f0: "getNFeatures ?A0 = getNFeatures A" by (rule getNFeatures_reset)
  have nA: "len_array (samples A) = length (labels A)"
    and nB: "len_array (samples B) = length (labels B)"
    using A B by (simp_all add: invariant_def)
  have "length (shape (samples A)) = 2" using A by (simp add: invariant_def)
  then obtain n f where a: "shape (samples A) = [n, f]"
    using shape_two [of "shape (samples A)"] by blast
  show ?thesis
  proof (intro conjI impI)
    assume ne: "getNFeatures A \<noteq> getNFeatures B"
    show "Dataset_add A B = Inl (ValueError ''features'')"
      using Dataset_iadd_result [OF A0 B] ne add f0 by simp
    show "Dataset_iadd A B = Inl (ValueError ''features'')"
      using Dataset_iadd_result [OF A B] ne by simp
  next
    assume eq: "getNFeatures A = getNFeatures B"
    have r1: "Dataset_add A B =
              Inr (?A0\<lparr>samples := \<lparr>shape = [len_array (samples ?A0) + len_array (samples B),
                                          shape (samples ?A0) ! 1],
                                 elems = elems (samples ?A0) @ elems (samples B)\<rparr>,
                     labels := labels ?A0 @ labels B, uniqueLabels := None,
                     chunks := chunks ?A0 @ chunks B, uniqueChunks := None\<rparr>)"
      using Dataset_iadd_result [OF A0 B] eq add f0 by simp
    have r2: "Dataset_iadd A B =
              Inr (A\<lparr>samples := \<lparr>shape = [len_array (samples A) + len_array (samples B),
                                          shape (samples A) ! 1],
                                 elems = elems (samples A) @ elems (samples B)\<rparr>,
                     labels := labels A @ labels B, uniqueLabels := None,
                     chunks := chunks A @ chunks B, uniqueChunks := None\<rparr>)"
      using Dataset_iadd_result [OF A B] eq by simp
    show "\<exists>D E. Dataset_add A B = Inr D \<and> Dataset_iadd A B = Inr E
               \<and> getNSamples D = Inr (length (labels A) + length (labels B))
               \<and> getNSamples E = Inr (length (labels A) + length (labels B))
               \<and> getNFeatures D = getNFeatures A \<and> getNFeatures E = getNFeatures A
               \<and> chunks D = chunks A @ chunks B \<and> chunks E = chunks A @ chunks B
               \<and> labels D = labels A @ labels B \<and> labels E = labels A @ labels B
               \<and> elems (samples D) = elems (samples A) @ elems (samples B)
               \<and> elems (samples E) = elems (samples A) @ elems (samples B)"
      unfolding r1 r2 using nA nB a
      by (simp add: getNSamples_def getNFeatures_def)
  qed
qed

lemma example_invariant: "invariant example_dataset"
  by (simp add: invariant_def example_dataset_def example_samples_def len_array_def)

lemma example_invariant_one_feature: "invariant (dataset_of \<lparr>shape = [2, 1], elems = [2, 4 :: int]\<rparr> [0, 1 :: int] [0, 1])"
  by (simp add: invariant_def dataset_of_def len_array_def)

text \<open>Witness for C4: two features against one fail; the example dataset added to itself
  has four samples and its chunks twice.\<close>

theorem Dataset_add_concat_witness:
  "Dataset_add example_dataset (dataset_of \<lparr>shape = [2, 1], elems = [2, 4]\<rparr> [0, 1] [0, 1])
     = Inl (ValueError ''features'')
   \<and> (\<exists>D. Dataset_add example_dataset example_dataset = Inr D
         \<and> getNSamples D = Inr 4 \<and> chunks D = [0, 1, 0, 1])"
  using Dataset_add_concat [OF example_invariant example_invariant_one_feature]
    Dataset_add_concat [OF example_invariant example_invariant]
  by (auto simp: getNFeatures_def example_dataset_def example_samples_def dataset_of_def)

section \<open>Properties of the label permutation\<close>

lemma bool_index_selected:
  "length msk = length xs \<Longrightarrow>
   \<exists>sel. bool_index xs msk = Inr sel \<and> length sel = length (filter id msk)"
proof -
  assume l: "length msk = length xs"
  have "length (filter snd (zip xs msk)) = length (filter id msk)"
    using l [symmetric] by (induction xs msk rule: list_induct2) simp_all
  then show ?thesis using l by (simp add: bool_index_def)
qed

lemma length_put_mask: "length (put_mask xs ms vs) = length xs"
  by (induction xs ms vs rule: put_mask.induct) simp_all

lemma permute_chunks_returns:
  assumes "length cs = length ls"
    and "\<forall>g xs. length (fst (permutation g xs)) = length xs"
  shows "\<exists>ls' g'. permute_chunks permutation g cs ls uc = Inr (ls', g') \<and> length ls' = length ls"
  using assms(1)
proof (induction uc arbitrary: g ls)
  case Nil
  then show ?case by simp
next
  case (Cons c rest)
  let ?msk = "map (\<lambda>x. x = c) cs"
  have lm: "length ?msk = length ls" using Cons.prems by simp
  from bool_index_selected [OF lm] obtain sel where
    sel: "bool_index ls ?msk = Inr sel" and ls: "length sel = length (filter id ?msk)"
    by blast
  obtain vs g1 where p: "permutation g sel = (vs, g1)" by (cases "permutation g sel")
  have lv: "length vs = length sel" using assms(2) [rule_format, of g sel] p by simp
  have asg: "bool_assign ls ?msk vs = Inr (put_mask ls ?msk vs)"
    using lm lv ls by (simp add: bool_assign_def)
  have "length cs = length (put_mask ls ?msk vs)"
    using Cons.prems by (simp add: length_put_mask)
  from Cons.IH [OF this, of g1] obtain ls' g' where
    r: "permute_chunks permutation g1 cs (put_mask ls ?msk vs) rest = Inr (ls', g')"
    and l: "length ls' = length (put_mask ls ?msk vs)"
    by blast
  have "permute_chunks permutation g cs ls (c # rest) = Inr (ls', g')"
    using sel p asg r by (simp add: Let_def)
  then show ?case using l by (simp add: length_put_mask)
qed

text \<open>
  C2. For every dataset with as many chunks as labels, and a \<^verbatim>\<open>N.random.permutation\<close>
  that returns as many values as it is given, \<^verbatim>\<open>permutedRegressors(True)\<close> returns,
  per chunk or not, and a following \<^verbatim>\<open>permutedRegressors(False)\<close> returns with the labels
  exactly as they were before the first call; chunks and samples are untouched and the
  backup of the labels is cleared.
\<close>

theorem permutedRegressors_roundtrip:
  assumes "length (chunks D) = length (labels D)"
    and "\<forall>g xs. length (fst (permutation g xs)) = length xs"
  shows "\<exists>D1 g1 D2. permutedRegressors permutation g D True perchunk = Inr (D1, g1)
           \<and> permutedRegressors permutation g1 D1 False perchunk' = Inr (D2, g1)
           \<and> labels D2 = labels D \<and> origlabels D2 = None
           \<and> chunks D2 = chunks D \<and> samples D2 = samples D"
proof (cases perchunk)
  case False
  obtain ls g1 where p: "permutation g (labels D) = (ls, g1)"
    by (cases "permutation g (labels D)")
  have "permutedRegressors permutation g D True perchunk
          = Inr (setLabels (D\<lparr>origlabels := Some (labels D)\<rparr>) ls, g1)"
    using False p by (simp add: permutedRegressors_def Let_def)
  then show ?thesis
    by (simp add: permutedRegressors_def setLabels_def)
next
  case True
  obtain uc D' where u: "getUniqueChunks (D\<lparr>origlabels := Some (labels D)\<rparr>) = (uc, D')"
    by (cases "getUniqueChunks (D\<lparr>origlabels := Some (labels D)\<rparr>)")
  have D': "chunks D' = chunks D" "labels D' = labels D" "samples D' = samples D"
    "origlabels D' = Some (labels D)"
    using u by (auto simp: getUniqueChunks_def Let_def split: option.splits)
  have "length (chunks D') = length (labels D')" using assms(1) D' by simp
  from permute_chunks_returns [OF this assms(2), of g uc] obtain ls g1 where
    r: "permute_chunks permutation g (chunks D') (labels D') uc = Inr (ls, g1)"
    by blast
  have "permutedRegressors permutation g D True perchunk = Inr (setLabels D' ls, g1)"
    using True u r by (simp add: permutedRegressors_def Let_def)
  then show ?thesis
    using D' by (simp add: permutedRegressors_def setLabels_def)
qed

text \<open>Witness for C2: the labels \<open>[0, 1]\<close> are reversed by the first call and
  restored by the second.\<close>

theorem permutedRegressors_roundtrip_witness:
  "\<exists>D1 D2. permutedRegressors reversing () example_dataset True False = Inr (D1, ())
     \<and> labels D1 = [1, 0]
     \<and> permutedRegressors reversing () D1 False True = Inr (D2, ())
     \<and> labels D2 = [0, 1]"
proof -
  have h1: "length (chunks example_dataset) = length (labels example_dataset)"
    by (simp add: example_dataset_def)
  have h2: "\<forall>g (xs :: int list). length (fst (reversing g xs)) = length xs"
    by (simp add: reversing_def)
  from permutedRegressors_roundtrip [OF h1 h2, of "()" False True]
  obtain D1 D2 where
    a: "permutedRegressors reversing () example_dataset True False = Inr (D1, ())"
    and b: "permutedRegressors reversing () D1 False True = Inr (D2, ())"
    and c: "labels D2 = labels example_dataset"
    by auto
  have "permutedRegressors reversing () example_dataset True False
          = Inr (example_dataset\<lparr>labels := [1, 0], origlabels := Some [0, 1]\<rparr>, ())"
    by code_simp
  then have "labels D1 = [1, 0]" using a by auto
  then show ?thesis using a b c by (auto simp: example_dataset_def)
qed

text \<open>Two samples of one chunk, permuted within the chunk.\<close>

lemma permutedRegressors_perchunk_example:
  "permutedRegressors reversing ()
     (dataset_of example_samples [0, 1 :: int] [7, 7]) True True
   = Inr ((dataset_of example_samples [1, 0] [7, 7])
            \<lparr>origlabels := Some [0, 1], uniqueChunks := Some [7]\<rparr>, ())"
  by code_simp

text \<open>Restoring without a permutation before raises \<^verbatim>\<open>RuntimeError\<close>.\<close>

lemma permutedRegressors_restore_without_permute:
  "permutedRegressors permutation g example_dataset False perchunk = Inl RuntimeError"
  by (simp add: permutedRegressors_def example_dataset_def)

section \<open>Properties of the random selection\<close>

lemma draw_samples_short:
  "i \<le> length nperlabel \<Longrightarrow> length nperlabel < i + length rs \<Longrightarrow>
   \<exists>e. draw_samples sample g ls nperlabel i rs acc = Inl e"
proof (induction rs arbitrary: g i acc)
  case Nil
  then show ?case by simp
next
  case (Cons r rs)
  show ?case
  proof (cases "i < length nperlabel")
    case False
    then show ?thesis by simp
  next
    case True
    let ?ids = "filter (\<lambda>j. ls ! j = r) [0..<length ls]"
    show ?thesis
    proof (cases "random_sample sample g ?ids (nperlabel ! i)")
      case (Inl e)
      then show ?thesis using True by simp
    next
      case (Inr sg)
      obtain s g1 where sg: "sg = (s, g1)" by (cases sg)
      have "Suc i \<le> length nperlabel" "length nperlabel < Suc i + length rs"
        using Cons.prems True by simp_all
      from Cons.IH [OF this, of g1 "acc @ s"] show ?thesis
        using True Inr sg by simp
    qed
  qed
qed

lemma draw_samples_take:
  "i + length rs \<le> m \<Longrightarrow>
   draw_samples sample g ls (take m nperlabel) i rs acc
     = draw_samples sample g ls nperlabel i rs acc"
proof (induction rs arbitrary: g i acc)
  case Nil
  then show ?case by simp
next
  case (Cons r rs)
  have im: "i < m" and m: "Suc i + length rs \<le> m" using Cons.prems by simp_all
  show ?case
  proof (cases "i < length nperlabel")
    case False
    then show ?thesis by simp
  next
    case True
    then have "i < length (take m nperlabel)" and "take m nperlabel ! i = nperlabel ! i"
      using im by simp_all
    then show ?thesis using True Cons.IH [OF m]
      by (simp split: sum.splits prod.splits)
  qed
qed

lemma draw_samples_segments:
  assumes "draws_without_replacement sample"
    and "draw_samples sample g ls nperlabel i rs acc = Inr (s, g')"
  shows "\<exists>segs. s = acc @ concat segs \<and> length segs = length rs \<and>
           (\<forall>k<length rs. int (length (segs ! k)) = nperlabel ! (i + k) \<and>
                distinct (segs ! k) \<and>
                set (segs ! k) \<subseteq> {j. j < length ls \<and> ls ! j = rs ! k})"
  using assms(2)
proof (induction rs arbitrary: g i acc)
  case Nil
  then show ?case by simp
next
  case (Cons r rs)
  let ?ids = "filter (\<lambda>j. ls ! j = r) [0..<length ls]"
  from Cons.prems obtain s1 g1 where
    i: "i < length nperlabel"
    and rs: "random_sample sample g ?ids (nperlabel ! i) = Inr (s1, g1)"
    and rest: "draw_samples sample g1 ls nperlabel (Suc i) rs (acc @ s1) = Inr (s, g')"
    by (auto simp: Let_def split: if_splits sum.splits)
  from rs have k: "0 \<le> nperlabel ! i" "nperlabel ! i \<le> int (length ?ids)"
    and s1: "s1 = fst (sample g ?ids (nat (nperlabel ! i)))"
    by (auto simp: random_sample_def split: if_splits)
  have "distinct ?ids" by simp
  moreover have "nat (nperlabel ! i) \<le> length ?ids" using k by linarith
  ultimately have d: "length s1 = nat (nperlabel ! i)" "distinct s1" "set s1 \<subseteq> set ?ids"
    using assms(1) unfolding draws_without_replacement_def s1 by blast+
  from Cons.IH [OF rest] obtain segs where
    s: "s = (acc @ s1) @ concat segs" and l: "length segs = length rs"
    and p: "\<forall>k<length rs. int (length (segs ! k)) = nperlabel ! (Suc i + k) \<and>
                distinct (segs ! k) \<and>
                set (segs ! k) \<subseteq> {j. j < length ls \<and> ls ! j = rs ! k}"
    by blast
  have "\<forall>k<length (r # rs). int (length ((s1 # segs) ! k)) = nperlabel ! (i + k) \<and>
                distinct ((s1 # segs) ! k) \<and>
                set ((s1 # segs) ! k) \<subseteq> {j. j < length ls \<and> ls ! j = (r # rs) ! k}"
  proof (intro allI impI)
    fix k assume kk: "k < length (r # rs)"
    show "int (length ((s1 # segs) ! k)) = nperlabel ! (i + k) \<and>
                distinct ((s1 # segs) ! k) \<and>
                set ((s1 # segs) ! k) \<subseteq> {j. j < length ls \<and> ls ! j = (r # rs) ! k}"
    proof (cases k)
      case 0
      then show ?thesis using d k by auto
    next
      case (Suc k')
      then have "k' < length rs" using kk by simp
      then show ?thesis using p Suc by simp
    qed
  qed
  moreover have "s = acc @ concat (s1 # segs)" using s by simp
  moreover have "length (s1 # segs) = length (r # rs)" using l by simp
  ultimately show ?case by blast
qed

lemma norm_indices_nat: "norm_indices n (map int s) = Inr js \<Longrightarrow> js = s"
  by (induction s arbitrary: js) (auto simp: norm_index_def split: sum.splits if_splits)

lemma Dataset_init_sequences:
  "Dataset_init a (Sequence ls) (Some (Sequence cs)) = Inr d \<Longrightarrow>
   labels d = ls \<and> chunks d = cs \<and> samples d = ndmin2 a"
  by (auto simp: Dataset_init_def Let_def setLabels_def setChunks_def split: if_splits)

lemma selectSamples_nat:
  assumes "selectSamples self (Sequence (map int s)) = Inr d"
  shows "labels d = map (\<lambda>j. labels self ! j) s \<and> chunks d = map (\<lambda>j. chunks self ! j) s
       \<and> (\<exists>a. index_axis0 (samples self) (map int s) = Inr a \<and> samples d = ndmin2 a)"
proof -
  from assms obtain a ls cs where
    a: "index_axis0 (samples self) (map int s) = Inr a"
    and l: "index_list (labels self) (map int s) = Inr ls"
    and c: "index_list (chunks self) (map int s) = Inr cs"
    and d: "Dataset_init a (Sequence ls) (Some (Sequence cs)) = Inr d"
    by (auto simp: selectSamples_def Let_def split: sum.splits)
  have "ls = map (\<lambda>j. labels self ! j) s" "cs = map (\<lambda>j. chunks self ! j) s"
    using l c by (auto simp: index_list_def split: sum.splits dest: norm_indices_nat)
  then show ?thesis using Dataset_init_sequences [OF d] a by simp
qed

lemma getUniqueLabels_fields:
  "labels (snd (getUniqueLabels self)) = labels self \<and>
   chunks (snd (getUniqueLabels self)) = chunks self \<and>
   samples (snd (getUniqueLabels self)) = samples self"
  by (simp add: getUniqueLabels_def Let_def split: option.splits)

text \<open>
  What \<^verbatim>\<open>getRandomSamples\<close> does with its argument, for a \<^verbatim>\<open>random.sample\<close> that draws
  without replacement. A single integer stands for that integer for every unique label.
  A sequence shorter than the number of unique labels fails. Of a longer sequence only
  the first entries, one per unique label, are read. When the call succeeds, the result
  holds the samples drawn label by label: for the \<open>i\<close>-th unique label \<open>ns ! i\<close> distinct
  samples of that label, and the rows, labels and chunks of the result are those of the
  drawn samples, in the order drawn.
\<close>

lemma getRandomSamples_nperlabel:
  assumes "draws_without_replacement sample"
  shows "getRandomSamples sample g self (Scalar n)
           = getRandomSamples sample g self
               (Sequence (replicate (length (fst (getUniqueLabels self))) n))
       \<and> (length ns < length (fst (getUniqueLabels self)) \<longrightarrow>
           (\<exists>e. getRandomSamples sample g self (Sequence ns) = Inl e))
       \<and> (length (fst (getUniqueLabels self)) \<le> length ns \<longrightarrow>
           getRandomSamples sample g self (Sequence ns)
             = getRandomSamples sample g self
                 (Sequence (take (length (fst (getUniqueLabels self))) ns)))
       \<and> (getRandomSamples sample g self (Sequence ns) = Inr (d, self', g') \<longrightarrow>
           (\<exists>segs. length segs = length (fst (getUniqueLabels self)) \<and>
              (\<forall>i<length (fst (getUniqueLabels self)).
                  int (length (segs ! i)) = ns ! i \<and> distinct (segs ! i) \<and>
                  set (segs ! i) \<subseteq> {j. j < length (labels self) \<and>
                                        labels self ! j = fst (getUniqueLabels self) ! i}) \<and>
              labels d = map (\<lambda>j. labels self ! j) (concat segs) \<and>
              chunks d = map (\<lambda>j. chunks self ! j) (concat segs) \<and>
              (\<exists>a. index_axis0 (samples self) (map int (concat segs)) = Inr a \<and>
                   samples d = ndmin2 a)))"
proof -
  obtain ul self1 where u: "getUniqueLabels self = (ul, self1)"
    by (cases "getUniqueLabels self")
  have f: "labels self1 = labels self" "chunks self1 = chunks self"
    "samples self1 = samples self"
    using getUniqueLabels_fields [of self] u by simp_all
  have c1: "getRandomSamples sample g self (Scalar n)
           = getRandomSamples sample g self
               (Sequence (replicate (length (fst (getUniqueLabels self))) n))"
    by (simp add: getRandomSamples_def u map_replicate_const)
  have c2: "length ns < length (fst (getUniqueLabels self)) \<longrightarrow>
           (\<exists>e. getRandomSamples sample g self (Sequence ns) = Inl e)"
  proof
    assume "length ns < length (fst (getUniqueLabels self))"
    then have "length ns < 0 + length ul" using u by simp
    from draw_samples_short [OF _ this, of sample g "labels self1" "[]"]
    obtain e where "draw_samples sample g (labels self1) ns 0 ul [] = Inl e" by auto
    then show "\<exists>e. getRandomSamples sample g self (Sequence ns) = Inl e"
      by (simp add: getRandomSamples_def u)
  qed
  have c3: "length (fst (getUniqueLabels self)) \<le> length ns \<longrightarrow>
           getRandomSamples sample g self (Sequence ns)
             = getRandomSamples sample g self
                 (Sequence (take (length (fst (getUniqueLabels self))) ns))"
    using draw_samples_take [of 0 ul "length ul" sample g "labels self1" ns "[]"]
    by (simp add: getRandomSamples_def u)
  have c4: "getRandomSamples sample g self (Sequence ns) = Inr (d, self', g') \<longrightarrow>
           (\<exists>segs. length segs = length (fst (getUniqueLabels self)) \<and>
              (\<forall>i<length (fst (getUniqueLabels self)).
                  int (length (segs ! i)) = ns ! i \<and> distinct (segs ! i) \<and>
                  set (segs ! i) \<subseteq> {j. j < length (labels self) \<and>
                                        labels self ! j = fst (getUniqueLabels self) ! i}) \<and>
              labels d = map (\<lambda>j. labels self ! j) (concat segs) \<and>
              chunks d = map (\<lambda>j. chunks self ! j) (concat segs) \<and>
              (\<exists>a. index_axis0 (samples self) (map int (concat segs)) = Inr a \<and>
                   samples d = ndmin2 a))"
  proof
    assume "getRandomSamples sample g self (Sequence ns) = Inr (d, self', g')"
    then obtain s where
      dr: "draw_samples sample g (labels self1) ns 0 ul [] = Inr (s, g')"
      and sel: "selectSamples self1 (Sequence (map int s)) = Inr d"
      by (auto simp: getRandomSamples_def u Let_def split: sum.splits)
    from draw_samples_segments [OF assms dr] obtain segs where
      s: "s = concat segs" and l: "length segs = length ul"
      and p: "\<forall>k<length ul. int (length (segs ! k)) = ns ! (0 + k) \<and>
                distinct (segs ! k) \<and>
                set (segs ! k) \<subseteq> {j. j < length (labels self1) \<and> labels self1 ! j = ul ! k}"
      by auto
    have "labels d = map (\<lambda>j. labels self ! j) (concat segs)"
      "chunks d = map (\<lambda>j. chunks self ! j) (concat segs)"
      "\<exists>a. index_axis0 (samples self) (map int (concat segs)) = Inr a \<and> samples d = ndmin2 a"
      using selectSamples_nat [OF sel] f s by simp_all
    then show "\<exists>segs. length segs = length (fst (getUniqueLabels self)) \<and>
              (\<forall>i<length (fst (getUniqueLabels self)).
                  int (length (segs ! i)) = ns ! i \<and> distinct (segs ! i) \<and>
                  set (segs ! i) \<subseteq> {j. j < length (labels self) \<and>
                                        labels self ! j = fst (getUniqueLabels self) ! i}) \<and>
              labels d = map (\<lambda>j. labels self ! j) (concat segs) \<and>
              chunks d = map (\<lambda>j. chunks self ! j) (concat segs) \<and>
              (\<exists>a. index_axis0 (samples self) (map int (concat segs)) = Inr a \<and>
                   samples d = ndmin2 a)"
      using l p f u by (intro exI [of _ segs]) simp
  qed
  from c1 c2 c3 c4 show ?thesis by (intro conjI)
qed

lemma take_first_draws: "draws_without_replacement take_first"
  by (auto simp: draws_without_replacement_def take_first_def dest: in_set_takeD)

lemma take_last_draws: "draws_without_replacement take_last"
  by (auto simp: draws_without_replacement_def take_last_def dest: in_set_dropD)

text \<open>Four samples, two of each label, and a sampler that takes the last members of the
  population: one sample per label is drawn, the later of the two.\<close>

lemma getRandomSamples_example:
  "getRandomSamples take_last () example_dataset4 (Scalar 1)
     = Inr (dataset_of \<lparr>shape = [2, 1], elems = [30, 40]\<rparr> [0, 1] [1, 1],
            example_dataset4\<lparr>uniqueLabels := Some [0, 1]\<rparr>, ())
   \<and> getRandomSamples take_last () example_dataset4 (Sequence [2, 1])
     = Inr (dataset_of \<lparr>shape = [3, 1], elems = [10, 30, 40]\<rparr> [0, 0, 1] [0, 1, 1],
            example_dataset4\<lparr>uniqueLabels := Some [0, 1]\<rparr>, ())"
  by code_simp

text \<open>
  C8 (the code at the failing input). The dataset has two unique labels and the sequence
  \<open>[1, 1, 5]\<close> has three entries. \<^verbatim>\<open>getRandomSamples\<close> does not fail: it returns the
  dataset drawn for the counts 1 and 1, and the third entry is never read.
\<close>

theorem getRandomSamples_longer_sequence:
  "length [1, 1, 5 :: int] \<noteq> length (fst (getUniqueLabels example_dataset4))
   \<and> getRandomSamples take_last () example_dataset4 (Sequence [1, 1, 5])
       = Inr (dataset_of \<lparr>shape = [2, 1], elems = [30, 40]\<rparr> [0, 1] [1, 1],
              example_dataset4\<lparr>uniqueLabels := Some [0, 1]\<rparr>, ())"
  by code_simp

text \<open>A shorter sequence fails at \<^verbatim>\<open>nperlabel[i]\<close>; a count above the size of a
  group fails in \<^verbatim>\<open>random.sample\<close>.\<close>

lemma getRandomSamples_shorter_sequence:
  "getRandomSamples take_last () example_dataset4 (Sequence [1]) = Inl IndexError"
  by code_simp

lemma getRandomSamples_too_many:
  "getRandomSamples take_last () example_dataset4 (Scalar 3) = Inl (ValueError ''sample'')"
  by code_simp

section \<open>Properties of the wrapping classifiers\<close>

text \<open>
  C9 (the code at every input). \<^verbatim>\<open>ProxyClassifier.train\<close> does not forward the dataset
  it received: for every wrapped classifier and every dataset it raises \<^verbatim>\<open>NameError\<close>
  on \<^verbatim>\<open>wdata\<close>, before the wrapped \<^verbatim>\<open>train\<close> is called and before any state is
  copied.
\<close>

theorem ProxyClassifier_train_NameError:
  "ProxyClassifier_train ops self data = Inl (NameError ''wdata'')"
  by (simp add: ProxyClassifier_train_def unbound_name_def)

text \<open>\<^verbatim>\<open>ProxyClassifier.predict\<close> does what C9 says of it: the samples go to the wrapped
  \<^verbatim>\<open>predict\<close> as they are, its result or its exception comes back as it is, and the
  states registered on both sides are taken from the wrapped classifier.\<close>

lemma ProxyClassifier_predict_forwards:
  "ProxyClassifier_predict ops self data =
     (case predict_of ops (proxy_clf self) data of
        Inl e \<Rightarrow> Inl e
      | Inr (result, clf) \<Rightarrow>
          Inr (result,
               self\<lparr>proxy_clf := clf,
                    proxy_states := copy_states (proxy_states self) (states_of ops clf)\<rparr>))"
  by (simp add: ProxyClassifier_predict_def)

lemma ProxyClassifier_predict_states:
  assumes "predict_of ops (proxy_clf self) data = Inr (result, clf)"
    and "proxy_states self name = Some s" and "states_of ops clf name = Some t"
  shows "\<exists>self'. ProxyClassifier_predict ops self data = Inr (result, self')
           \<and> proxy_clf self' = clf \<and> proxy_states self' name = Some t"
  using assms by (simp add: ProxyClassifier_predict_def copy_states_def)

lemma predict_label_cases:
  "predict_label ls =
     (case ls of [] \<Rightarrow> Inl IndexError | [l] \<Rightarrow> Inr (Label l) | _ \<Rightarrow> Inr (Labels ls))"
  by (simp add: predict_label_def split: list.splits)

text \<open>With a label in common the constructor ends in the overlap branch: it raises what
  the formatting of the message raises, or else the \<^verbatim>\<open>ValueError\<close> with that message.\<close>

lemma BinaryClassifier_init_overlap:
  assumes "set pos \<inter> set neg \<noteq> {}"
  shows "(BinaryClassifier_init py clf pos neg :: error + ('c, 'l, 'v) BinaryClassifier) =
     (case format_Set py ''BinaryClassifier must not overlap. Got overlap '' (set pos \<inter> set neg) of
        Inl e \<Rightarrow> Inl e
      | Inr message \<Rightarrow> Inl (ValueError (''Sets of positive and negative labels for '' @ message)))"
proof -
  have "0 < card (set pos \<inter> set neg)" using assms by (simp add: card_gt_0_iff)
  then show ?thesis by (simp add: BinaryClassifier_init_def Let_def)
qed

text \<open>Disjoint, non-empty lists of labels are accepted by an interpreter that enumerates
  each set: the labels are stored without duplicates, in the interpreter's order.\<close>

lemma BinaryClassifier_init_disjoint:
  assumes "set pos \<inter> set neg = {}" and "pos \<noteq> []" and "neg \<noteq> []"
    and "set (list_of_Set py (set pos)) = set pos" and "set (list_of_Set py (set neg)) = set neg"
  shows "\<exists>pp pn. predict_label (list_of_Set py (set pos)) = Inr pp \<and>
           predict_label (list_of_Set py (set neg)) = Inr pn \<and>
           BinaryClassifier_init py clf pos neg =
             Inr \<lparr>proxy_clf = clf, proxy_states = (Classifier_states :: 'v states),
                  poslabels = list_of_Set py (set pos), neglabels = list_of_Set py (set neg),
                  predictpos = pp, predictneg = pn\<rparr>"
proof -
  have some: "\<exists>p. predict_label xs = Inr p" if "xs \<noteq> []" for xs :: "'l list"
    using that by (cases xs) (auto simp: predict_label_def)
  have "list_of_Set py (set pos) \<noteq> []" "list_of_Set py (set neg) \<noteq> []"
    using assms(2-5) by auto
  then obtain pp pn where p: "predict_label (list_of_Set py (set pos)) = Inr pp"
    "predict_label (list_of_Set py (set neg)) = Inr pn"
    using some by blast
  have "BinaryClassifier_init py clf pos neg =
             Inr \<lparr>proxy_clf = clf, proxy_states = (Classifier_states :: 'v states),
                  poslabels = list_of_Set py (set pos), neglabels = list_of_Set py (set neg),
                  predictpos = pp, predictneg = pn\<rparr>"
    using assms(1) p
    by (simp add: BinaryClassifier_init_def Let_def ProxyClassifier_init_def
        ProxyClassifier.extend_def BinaryClassifier.fields_def BinaryClassifier.defs
        ProxyClassifier.defs)
  then show ?thesis using p by blast
qed

text \<open>Without positive labels there is no overlap, the list of positive labels is empty,
  and the element at index 0 is read.\<close>

lemma BinaryClassifier_init_no_poslabels:
  assumes "list_of_Set py {} = []"
  shows "(BinaryClassifier_init py clf [] neg :: error + ('c, 'l, 'v) BinaryClassifier)
           = Inl IndexError"
  using assms by (simp add: BinaryClassifier_init_def Let_def predict_label_def)

text \<open>The labels 2, 1, 2 against 3 are stored as \<open>[1, 2]\<close> and \<open>[3]\<close>; the labels 1, 2
  against 2, 3 overlap, and with this interpreter the formatting of the message raises.\<close>

lemma BinaryClassifier_init_examples:
  "map_sum id (\<lambda>b. (proxy_clf b, poslabels b, neglabels b, predictpos b, predictneg b))
     (BinaryClassifier_init example_interpreter () [2, 1, 2] [3]
        :: error + (unit, int, unit) BinaryClassifier)
     = Inr ((), [1, 2], [3], Labels [1, 2], Label 3)
   \<and> map_sum id (\<lambda>b. (proxy_clf b, poslabels b, neglabels b, predictpos b, predictneg b))
     (BinaryClassifier_init example_interpreter () [1, 2] [2, 3]
        :: error + (unit, int, unit) BinaryClassifier)
     = Inl TypeError"
  by code_simp

text \<open>
  C6 (the code at the failing input). No positive labels and the negative label 3 have
  no label in common, and the construction of the \<^verbatim>\<open>BinaryClassifier\<close> does not succeed:
  it raises \<^verbatim>\<open>IndexError\<close> at \<^verbatim>\<open>self.__poslabels[0]\<close>; so it does with the label 3 and no
  negative labels.
\<close>

theorem BinaryClassifier_init_empty_labels:
  "set ([] :: int list) \<inter> set [3] = {}
   \<and> BinaryClassifier_init example_interpreter () [] [3]
     = (Inl IndexError :: error + (unit, int, unit) BinaryClassifier)
   \<and> BinaryClassifier_init example_interpreter () [3] []
     = (Inl IndexError :: error + (unit, int, unit) BinaryClassifier)"
  by (simp add: BinaryClassifier_init_def Let_def predict_label_def example_interpreter_def)

text \<open>The first pair of labels already fails: \<^verbatim>\<open>copy\<close> is not bound.\<close>

lemma pairs_with_NameError:
  "pairs_with py proto ulabels i (j # js) biclfs = Inl (NameError ''copy'')"
  by (simp add: unbound_name_def)

lemma all_pairs_NameError:
  assumes "2 \<le> length ulabels"
  shows "all_pairs py proto ulabels [0..<length ulabels] ([] :: ('c, 'l, 'v) BinaryClassifier list)
           = Inl (NameError ''copy'')"
proof -
  have i: "[0..<length ulabels] = 0 # [Suc 0..<length ulabels]"
    using assms by (intro upt_conv_Cons) auto
  have j: "[Suc 0..<length ulabels] = Suc 0 # [Suc (Suc 0)..<length ulabels]"
    using assms by (intro upt_conv_Cons) auto
  have "pairs_with py proto ulabels 0 [Suc 0..<length ulabels]
          ([] :: ('c, 'l, 'v) BinaryClassifier list) = Inl (NameError ''copy'')"
    unfolding j by (rule pairs_with_NameError)
  then show ?thesis unfolding i by simp
qed

lemma all_pairs_few_labels:
  assumes "length ulabels < 2"
  shows "all_pairs py proto ulabels [0..<length ulabels] [] = Inr []"
proof -
  have "length ulabels = 0 \<or> length ulabels = 1" using assms by linarith
  then show ?thesis by auto
qed

lemma MulticlassClassifier_train_NameError:
  fixes self :: "('c, 'l::linorder, 'v) MulticlassClassifier"
  assumes "mc_bclf_type self = ''1-vs-1''"
    and "2 \<le> length (fst (getUniqueLabels data))"
  shows "MulticlassClassifier_train py train self data = Inl (NameError ''copy'')"
proof -
  obtain ulabels data1 where u: "getUniqueLabels data = (ulabels, data1)"
    by (cases "getUniqueLabels data")
  then have "all_pairs py (mc_clf self) ulabels [0..<length ulabels]
               ([] :: ('c, 'l, 'v) BinaryClassifier list) = Inl (NameError ''copy'')"
    using assms(2) by (intro all_pairs_NameError) simp
  then show ?thesis using assms(1) u by (simp add: MulticlassClassifier_train_def)
qed

lemma MulticlassClassifier_train_few_labels:
  fixes self :: "('c, 'l::linorder, 'v) MulticlassClassifier"
  assumes "mc_bclf_type self = ''1-vs-1''"
    and "length (fst (getUniqueLabels data)) < 2"
  shows "MulticlassClassifier_train py train self data
           = Inr (self\<lparr>mc_bclf_clfs := []\<rparr>, snd (getUniqueLabels data))"
proof -
  obtain ulabels data1 where u: "getUniqueLabels data = (ulabels, data1)"
    by (cases "getUniqueLabels data")
  then have "all_pairs py (mc_clf self) ulabels [0..<length ulabels]
               ([] :: ('c, 'l, 'v) BinaryClassifier list) = Inr []"
    using assms(2) by (intro all_pairs_few_labels) simp
  then show ?thesis using assms(1) u by (simp add: MulticlassClassifier_train_def)
qed

text \<open>
  C5 (the code at the failing input). On a dataset with the two unique labels 0 and 1,
  \<^verbatim>\<open>MulticlassClassifier.train\<close> with the strategy \<^verbatim>\<open>"1-vs-1"\<close> raises \<^verbatim>\<open>NameError\<close> on
  \<^verbatim>\<open>copy\<close>, whatever the prototype and the classifiers held before: no
  \<^verbatim>\<open>BinaryClassifier\<close> is created, none is assigned and nothing is trained.
\<close>

theorem MulticlassClassifier_train_two_labels:
  "MulticlassClassifier_train py train
     \<lparr>mc_clf = clf, mc_bclf_clfs = bclf_clfs, mc_bclf_type = ''1-vs-1''\<rparr> example_dataset
   = Inl (NameError ''copy'')"
proof -
  have "fst (getUniqueLabels example_dataset) = [0, 1]" by code_simp
  then show ?thesis by (intro MulticlassClassifier_train_NameError) simp_all
qed

section \<open>Properties of OneWayAnova\<close>

subsection \<open>One score per feature\<close>

lemma anova_wf_rows:
  "anova_wf ds \<Longrightarrow> list_all (\<lambda>row. length row = a_nfeatures ds) (a_samples ds)"
  by (simp add: anova_wf_def list_all_iff)

lemma length_foldl_map2:
  "length acc = n \<Longrightarrow> list_all (\<lambda>row. length row = n) rows \<Longrightarrow>
   length (foldl (\<lambda>acc r. map2 f acc r) acc rows) = n"
  by (induction rows arbitrary: acc) simp_all

lemma length_sum_axis0:
  "list_all (\<lambda>row. length row = nf) rows \<Longrightarrow> length (sum_axis0 nf rows) = nf"
  by (cases rows) (simp_all add: sum_axis0_def length_foldl_map2)

lemma samples_of_label_rows:
  "list_all P (a_samples ds) \<Longrightarrow> list_all P (samples_of_label ds l)"
proof -
  have "set (samples_of_label ds l) \<subseteq> set (a_samples ds)"
    by (auto simp: samples_of_label_def dest: set_zip_leftD)
  then show "list_all P (a_samples ds) \<Longrightarrow> list_all P (samples_of_label ds l)"
    by (auto simp: list_all_iff)
qed

lemma length_anova_sostot:
  "anova_wf ds \<Longrightarrow> length (anova_sostot ds) = a_nfeatures ds"
  by (simp add: anova_sostot_def length_sum_axis0 anova_wf_rows)

lemma length_anova_sstot:
  "anova_wf ds \<Longrightarrow> length (anova_sstot ds) = a_nfeatures ds"
proof -
  assume wf: "anova_wf ds"
  have "list_all (\<lambda>row. length row = a_nfeatures ds) (map (map (\<lambda>x. fmul x x)) (a_samples ds))"
    using anova_wf_rows [OF wf] by (simp add: list_all_iff)
  then show ?thesis
    using wf by (simp add: anova_sstot_def length_sum_axis0 length_anova_sostot)
qed

lemma length_ssbn_step:
  "anova_wf ds \<Longrightarrow> length ssbn = a_nfeatures ds \<Longrightarrow>
   length (ssbn_step ds ssbn l) = a_nfeatures ds"
  by (simp add: ssbn_step_def Let_def length_sum_axis0 samples_of_label_rows anova_wf_rows)

lemma length_foldl_ssbn_step:
  "anova_wf ds \<Longrightarrow> length ssbn = a_nfeatures ds \<Longrightarrow>
   length (foldl (ssbn_step ds) ssbn ls) = a_nfeatures ds"
  by (induction ls arbitrary: ssbn) (simp_all add: length_ssbn_step)

lemma length_anova_ssbn:
  "anova_wf ds \<Longrightarrow> length (anova_ssbn ds) = a_nfeatures ds"
  by (simp add: anova_ssbn_def length_foldl_ssbn_step length_anova_sostot)

lemma length_anova_f:
  "anova_wf ds \<Longrightarrow> length (anova_f ds) = a_nfeatures ds"
  by (simp add: anova_f_def anova_msb_def anova_msw_def anova_sswn_def
      length_anova_ssbn length_anova_sstot)

lemma length_anova_ms:
  "anova_wf ds \<Longrightarrow> length (anova_msb ds) = a_nfeatures ds \<and> length (anova_msw ds) = a_nfeatures ds"
  by (simp add: anova_msb_def anova_msw_def anova_sswn_def length_anova_ssbn length_anova_sstot)

subsection \<open>Not-a-number and the division by zero\<close>

lemma fdiv_by_zero:
  "is_zero y \<Longrightarrow>
   fdiv x y = (if isnan x \<or> is_zero x then NaN else Inf (signbit x \<noteq> signbit y))"
  by (cases y; cases x) (simp_all add: fdiv_def isnan_def)

lemma anova_f_nth:
  "anova_wf ds \<Longrightarrow> j < a_nfeatures ds \<Longrightarrow>
   anova_f ds ! j = fdiv (anova_msb ds ! j) (anova_msw ds ! j)"
  using length_anova_ms [of ds] by (simp add: anova_f_def)

lemma OneWayAnova_call_nth:
  "anova_wf ds \<Longrightarrow> j < a_nfeatures ds \<Longrightarrow>
   OneWayAnova_call ds ! j = (if isnan (anova_f ds ! j) then Zero False else anova_f ds ! j)"
  using length_anova_f [of ds] by (simp add: OneWayAnova_call_def)

text \<open>
  C7 (amended). For a dataset of \<^verbatim>\<open>float64\<close> samples with one target per sample,
  \<^verbatim>\<open>OneWayAnova._call\<close> returns one score per feature; a feature whose \<open>F\<close> is
  not-a-number is reported as 0, every other \<open>F\<close> is reported as computed, and no score
  is not-a-number. A feature whose within-group mean square is computed as a zero is
  reported as 0 only if its between-group mean square is a zero or not-a-number as
  well, and as an infinity otherwise.
\<close>

theorem OneWayAnova_call_nan:
  "anova_wf ds \<Longrightarrow>
   length (OneWayAnova_call ds) = a_nfeatures ds \<and>
   (\<forall>j<a_nfeatures ds.
      \<not> isnan (OneWayAnova_call ds ! j) \<and>
      (isnan (anova_f ds ! j) \<longrightarrow> OneWayAnova_call ds ! j = Zero False) \<and>
      (\<not> isnan (anova_f ds ! j) \<longrightarrow> OneWayAnova_call ds ! j = anova_f ds ! j) \<and>
      (is_zero (anova_msw ds ! j) \<longrightarrow>
         OneWayAnova_call ds ! j =
           (if isnan (anova_msb ds ! j) \<or> is_zero (anova_msb ds ! j) then Zero False
            else Inf (signbit (anova_msb ds ! j) \<noteq> signbit (anova_msw ds ! j)))))"
proof (intro conjI allI impI)
  assume wf: "anova_wf ds"
  show "length (OneWayAnova_call ds) = a_nfeatures ds"
    using length_anova_f [OF wf] by (simp add: OneWayAnova_call_def)
  fix j assume j: "j < a_nfeatures ds"
  note r = OneWayAnova_call_nth [OF wf j]
  show "\<not> isnan (OneWayAnova_call ds ! j)" unfolding r by (simp add: isnan_def)
  show "OneWayAnova_call ds ! j = Zero False" if "isnan (anova_f ds ! j)"
    unfolding r using that by simp
  show "OneWayAnova_call ds ! j = anova_f ds ! j" if "\<not> isnan (anova_f ds ! j)"
    unfolding r using that by simp
  show "OneWayAnova_call ds ! j =
          (if isnan (anova_msb ds ! j) \<or> is_zero (anova_msb ds ! j) then Zero False
           else Inf (signbit (anova_msb ds ! j) \<noteq> signbit (anova_msw ds ! j)))"
    if "is_zero (anova_msw ds ! j)"
    unfolding r anova_f_nth [OF wf j] fdiv_by_zero [OF that] by (simp add: isnan_def)
qed

subsection \<open>Examples\<close>

text \<open>Two features, samples in two groups: the first feature is 1 everywhere, the second
  is 1 in one group and 2 in the other. All values of this computation are small
  integers and halves.\<close>

lemma anova_example2_scores:
  "anova_wf anova_example2
   \<and> anova_msb anova_example2 = [Zero False, float_of_rat 1]
   \<and> anova_msw anova_example2 = [Zero False, Zero False]
   \<and> anova_f anova_example2 = [NaN, Inf False]"
  by code_simp

text \<open>Witness for C7: the first feature has \<open>F = 0/0\<close> and is reported as 0, the second
  has \<open>F = 1/0\<close> and is reported as it is.\<close>

theorem OneWayAnova_call_nan_witness:
  "anova_wf anova_example2 \<and> a_nfeatures anova_example2 = 2
   \<and> anova_f anova_example2 = [NaN, Inf False]
   \<and> OneWayAnova_call anova_example2 = [Zero False, Inf False]"
proof -
  have wf: "anova_wf anova_example2" and f: "anova_f anova_example2 = [NaN, Inf False]"
    using anova_example2_scores by simp_all
  have n: "a_nfeatures anova_example2 = 2" by (simp add: anova_example2_def)
  note t = OneWayAnova_call_nan [OF wf, unfolded n]
  have l: "length (OneWayAnova_call anova_example2) = 2" using t by simp
  have "OneWayAnova_call anova_example2 ! 0 = Zero False"
    using t f by (simp add: isnan_def)
  moreover have "OneWayAnova_call anova_example2 ! 1 = Inf False"
    using t f by (simp add: isnan_def)
  moreover have "xs = [xs ! 0, xs ! 1]" if "length xs = 2" for xs :: "float list"
    using that by (cases xs; cases "tl xs") simp_all
  ultimately have "OneWayAnova_call anova_example2 = [Zero False, Inf False]"
    using l by metis
  then show ?thesis using wf n f by simp
qed

text \<open>Counterexample to C7 as stated: the samples 1, 1 of one group and 2, 2 of the
  other do not vary within a group, the within-group sum of squares is computed as 0,
  and the reported score is \<open>+\<infinity>\<close>, not 0.\<close>

theorem OneWayAnova_call_zero_within_counterexample:
  "map (\<lambda>l. remdups (samples_of_label (anova_example [1, 1, 2, 2] [0, 0, 1, 1]) l)) [0, 1]
     = [[[float_of_rat 1]], [[float_of_rat 2]]]
   \<and> anova_sswn (anova_example [1, 1, 2, 2] [0, 0, 1, 1]) = [Zero False]
   \<and> anova_msw (anova_example [1, 1, 2, 2] [0, 0, 1, 1]) = [Zero False]
   \<and> OneWayAnova_call (anova_example [1, 1, 2, 2] [0, 0, 1, 1]) = [Inf False]"
  by code_simp

text \<open>With values that a binary64 does not hold exactly, a feature that does not vary
  within a group need not have a within-group sum of squares of zero: for the samples
  1.1, 1.1 and 0.1, 0.1 it is computed as \<open>- 2 ^ - 51\<close> and the score is \<open>- 2 ^ 52\<close>; for
  the constant feature 0.1 with groups of one and two samples the between-group sum of
  squares is negative, the within-group one is 0, and the score is \<open>-\<infinity>\<close>.\<close>

lemma OneWayAnova_call_rounding_example:
  "anova_sswn (anova_example [11 / 10, 11 / 10, 1 / 10, 1 / 10] [0, 0, 1, 1])
     = [Finite True (2 ^ 52) (- 103)]
   \<and> OneWayAnova_call (anova_example [11 / 10, 11 / 10, 1 / 10, 1 / 10] [0, 0, 1, 1])
     = [float_of_rat (- 4503599627370496)]"
  by code_simp

lemma OneWayAnova_call_constant_example:
  "anova_sswn (anova_example [1 / 10, 1 / 10, 1 / 10] [0, 1, 1]) = [Zero False]
   \<and> signbit (hd (anova_msb (anova_example [1 / 10, 1 / 10, 1 / 10] [0, 1, 1])))
   \<and> OneWayAnova_call (anova_example [1 / 10, 1 / 10, 1 / 10] [0, 1, 1]) = [Inf True]"
  by code_simp

lemma OneWayAnova_call_constant_nan_example:
  "anova_f (anova_example [1 / 10, 1 / 10, 1 / 10, 1 / 10] [0, 0, 1, 1]) = [NaN]
   \<and> OneWayAnova_call (anova_example [1 / 10, 1 / 10, 1 / 10, 1 / 10] [0, 0, 1, 1]) = [Zero False]"
  by code_simp

text \<open>The values of the model are those of the machine on the literals used above.\<close>

lemma binary64_examples:
  "float_of_rat (11 / 10) = Finite False 4953959590107546 (- 52)
   \<and> float_of_rat (1 / 10) = Finite False 7205759403792794 (- 56)
   \<and> fadd (float_of_rat (1 / 10)) (float_of_rat (2 / 10)) = Finite False 5404319552844596 (- 54)
   \<and> float_of_rat (- 4503599627370496) = Finite True (2 ^ 52) 0
   \<and> list_all binary64 [float_of_rat (11 / 10), float_of_rat (1 / 10), float_of_int 3]"
  by code_simp

end
